theory Spec2Isabelle
  imports Main "HOL-Library.Word"
begin

unbundle bit_operations_syntax

section \<open>Bytes, text and errors\<close>

text \<open>
  The repository holds two implementations of one protocol: the TypeScript backend
  (\<^verbatim>\<open>encryption.ts\<close>, \<^verbatim>\<open>decryption.ts\<close>, \<^verbatim>\<open>dh-encryption.ts\<close>, \<^verbatim>\<open>diffie-hellman.ts\<close>) and the
  Dart frontend (\<^verbatim>\<open>encryption.dart\<close>, \<^verbatim>\<open>decryption.dart\<close>, \<^verbatim>\<open>dh_encryption.dart\<close>,
  \<^verbatim>\<open>diffie_hellman.dart\<close>). Both are embedded here, function by function, with the suffix
  \<open>_ts\<close> or \<open>_dart\<close>.

  A byte is an 8-bit word. Text is a \<open>string\<close> whose characters are the UTF-8 code units
  of the text, so encoding text as UTF-8 is the character-wise conversion to bytes.
\<close>

type_synonym byte = "8 word"
type_synonym bytes = "byte list"

definition byte_of_char :: "char \<Rightarrow> byte" where
  "byte_of_char c = of_nat (of_char c)"

definition char_of_byte :: "byte \<Rightarrow> char" where
  "char_of_byte b = char_of (unat b)"

definition utf8_encode :: "string \<Rightarrow> bytes" where
  "utf8_encode s = map byte_of_char s"

definition text_of_bytes :: "bytes \<Rightarrow> string" where
  "text_of_bytes bs = map char_of_byte bs"

text \<open>
  Every exception of the two implementations is a value of \<open>error\<close>. The first four are
  the error kinds the specification names. The Dart functions catch whatever is thrown in
  their body and throw \<^verbatim>\<open>Exception('<prefix>: $e')\<close>: that is \<open>Wrapped prefix e\<close>.
\<close>

datatype error =
    FormatError           \<comment> \<open>\<^verbatim>\<open>'Invalid encrypted text format'\<close>: not three colon-separated parts\<close>
  | DecodeError           \<comment> \<open>malformed base64, hex or UTF-8 input\<close>
  | AuthenticationError   \<comment> \<open>the GCM tag check failed\<close>
  | InvalidKey            \<comment> \<open>the Diffie-Hellman library refused a public key\<close>
  | JsonSyntaxError       \<comment> \<open>\<^verbatim>\<open>JSON.parse\<close> / \<^verbatim>\<open>jsonDecode\<close> refused the text\<close>
  | CipherParamError      \<comment> \<open>the cipher refused its key, IV or tag length\<close>
  | RangeError            \<comment> \<open>Dart \<^verbatim>\<open>substring\<close> or \<^verbatim>\<open>modPow\<close> out of range\<close>
  | Wrapped string error

definition and_then :: "error + 'a \<Rightarrow> ('a \<Rightarrow> error + 'b) \<Rightarrow> error + 'b" where
  "and_then m f = (case m of Inl e \<Rightarrow> Inl e | Inr x \<Rightarrow> f x)"

text \<open>A Dart \<^verbatim>\<open>try { ... } catch (e) { throw Exception('<prefix>: $e'); }\<close>.\<close>

definition try_catch :: "string \<Rightarrow> error + 'a \<Rightarrow> error + 'a" where
  "try_catch prefix m = (case m of Inl e \<Rightarrow> Inl (Wrapped prefix e) | Inr x \<Rightarrow> Inr x)"

section \<open>Library functions with a standard meaning\<close>

subsection \<open>\<^verbatim>\<open>String.split(':')\<close>\<close>

fun str_split :: "string \<Rightarrow> string list" where
  "str_split [] = [[]]"
| "str_split (c # cs) =
     (if c = CHR '':'' then [] # str_split cs
      else (case str_split cs of [] \<Rightarrow> [[c]] | p # ps \<Rightarrow> (c # p) # ps))"

subsection \<open>Hexadecimal\<close>

fun index_of :: "'a \<Rightarrow> 'a list \<Rightarrow> nat option" where
  "index_of x [] = None"
| "index_of x (y # ys) = (if x = y then Some 0 else map_option Suc (index_of x ys))"

definition hexdigit :: "nat \<Rightarrow> char" where
  "hexdigit n = ''0123456789abcdef'' ! n"

definition hexval :: "char \<Rightarrow> nat option" where
  "hexval c =
     (case index_of c ''0123456789abcdef'' of
        Some n \<Rightarrow> Some n
      | None \<Rightarrow> map_option (\<lambda>n. n + 10) (index_of c ''ABCDEF''))"

definition is_hex :: "string \<Rightarrow> bool" where
  "is_hex s = list_all (\<lambda>c. hexval c \<noteq> None) s"

text \<open>\<^verbatim>\<open>Buffer.toString('hex')\<close> and \<^verbatim>\<open>Digest.toString()\<close>: two lowercase digits per byte.\<close>

fun hex_encode :: "bytes \<Rightarrow> string" where
  "hex_encode [] = []"
| "hex_encode (b # bs) = hexdigit (unat b div 16) # hexdigit (unat b mod 16) # hex_encode bs"

text \<open>The value of a string of hexadecimal digits, most significant digit first.\<close>

definition hex_value :: "string \<Rightarrow> nat" where
  "hex_value s = foldl (\<lambda>acc c. 16 * acc + (case hexval c of Some d \<Rightarrow> d | None \<Rightarrow> 0)) 0 s"

subsection \<open>Base64 (RFC 4648, standard alphabet, padded)\<close>

definition b64_alphabet :: string where
  "b64_alphabet = ''ABCDEFGHIJKLMNOPQRSTUVWXYZabcdefghijklmnopqrstuvwxyz0123456789+/''"

definition b64char :: "nat \<Rightarrow> char" where
  "b64char n = b64_alphabet ! n"

definition b64val :: "char \<Rightarrow> nat option" where
  "b64val c = index_of c b64_alphabet"

fun base64_encode :: "bytes \<Rightarrow> string" where
  "base64_encode [] = []"
| "base64_encode [a] =
     [b64char (unat a div 4), b64char (unat a mod 4 * 16), CHR ''='', CHR ''='']"
| "base64_encode [a, b] =
     [b64char (unat a div 4), b64char (unat a mod 4 * 16 + unat b div 16),
      b64char (unat b mod 16 * 4), CHR ''='']"
| "base64_encode (a # b # c # rest) =
     b64char (unat a div 4) # b64char (unat a mod 4 * 16 + unat b div 16) #
     b64char (unat b mod 16 * 4 + unat c div 64) # b64char (unat c mod 64) #
     base64_encode rest"

text \<open>
  The canonical decoder: it accepts exactly the padded encodings over the standard
  alphabet whose unused trailing bits are zero, and nothing else.
\<close>

definition b64_quad :: "char \<Rightarrow> char \<Rightarrow> char \<Rightarrow> char \<Rightarrow> bytes option" where
  "b64_quad c1 c2 c3 c4 =
     (case (b64val c1, b64val c2, b64val c3, b64val c4) of
        (Some v1, Some v2, Some v3, Some v4) \<Rightarrow>
          Some [of_nat (v1 * 4 + v2 div 16), of_nat (v2 mod 16 * 16 + v3 div 4),
                of_nat (v3 mod 4 * 64 + v4)]
      | _ \<Rightarrow> None)"

definition b64_last :: "char \<Rightarrow> char \<Rightarrow> char \<Rightarrow> char \<Rightarrow> bytes option" where
  "b64_last c1 c2 c3 c4 =
     (if c3 = CHR ''='' \<and> c4 = CHR ''='' then
        (case (b64val c1, b64val c2) of
           (Some v1, Some v2) \<Rightarrow>
             if v2 mod 16 = 0 then Some [of_nat (v1 * 4 + v2 div 16)] else None
         | _ \<Rightarrow> None)
      else if c4 = CHR ''='' then
        (case (b64val c1, b64val c2, b64val c3) of
           (Some v1, Some v2, Some v3) \<Rightarrow>
             if v3 mod 4 = 0
             then Some [of_nat (v1 * 4 + v2 div 16), of_nat (v2 mod 16 * 16 + v3 div 4)]
             else None
         | _ \<Rightarrow> None)
      else b64_quad c1 c2 c3 c4)"

fun base64_decode :: "string \<Rightarrow> bytes option" where
  "base64_decode [] = Some []"
| "base64_decode [c1, c2, c3, c4] = b64_last c1 c2 c3 c4"
| "base64_decode (c1 # c2 # c3 # c4 # rest) =
     (case b64_quad c1 c2 c3 c4 of
        None \<Rightarrow> None
      | Some g \<Rightarrow> map_option (\<lambda>bs. g @ bs) (base64_decode rest))"
| "base64_decode _ = None"

subsection \<open>JSON (ECMA-404): \<^verbatim>\<open>jsonEncode\<close> of a string, and \<^verbatim>\<open>JSON.parse\<close> / \<^verbatim>\<open>jsonDecode\<close>\<close>

datatype json =
    JNull
  | JBool bool
  | JNumber string   \<comment> \<open>the numeric literal as written\<close>
  | JString string
  | JArray "json list"
  | JObject "(string \<times> json) list"   \<comment> \<open>the members in source order\<close>

text \<open>
  Serialising a string: the quotation mark and the backslash are escaped, control
  characters below U+0020 get their short escape or \<^verbatim>\<open>\u00XX\<close>, every other code unit is
  copied.
\<close>

definition json_escape_char :: "char \<Rightarrow> string" where
  "json_escape_char c =
     (if c = CHR 0x22 then [CHR 0x5C, CHR 0x22]
      else if c = CHR 0x5C then [CHR 0x5C, CHR 0x5C]
      else if c = CHR 0x08 then [CHR 0x5C, CHR ''b'']
      else if c = CHR 0x09 then [CHR 0x5C, CHR ''t'']
      else if c = CHR 0x0A then [CHR 0x5C, CHR ''n'']
      else if c = CHR 0x0C then [CHR 0x5C, CHR ''f'']
      else if c = CHR 0x0D then [CHR 0x5C, CHR ''r'']
      else if (of_char c :: nat) < 32 then
        [CHR 0x5C, CHR ''u'', CHR ''0'', CHR ''0'',
         hexdigit ((of_char c :: nat) div 16), hexdigit ((of_char c :: nat) mod 16)]
      else [c])"

definition json_encode_string :: "string \<Rightarrow> string" where
  "json_encode_string s = CHR 0x22 # concat (map json_escape_char s) @ [CHR 0x22]"

text \<open>The UTF-8 code units of a code point (the text type holds UTF-8 code units).\<close>

definition utf8_of_code_point :: "nat \<Rightarrow> string" where
  "utf8_of_code_point n =
     (if n < 128 then [char_of n]
      else if n < 2048 then [char_of (192 + n div 64), char_of (128 + n mod 64)]
      else if n < 65536 then
        [char_of (224 + n div 4096), char_of (128 + n div 64 mod 64), char_of (128 + n mod 64)]
      else
        [char_of (240 + n div 262144), char_of (128 + n div 4096 mod 64),
         char_of (128 + n div 64 mod 64), char_of (128 + n mod 64)])"

definition hex4 :: "char \<Rightarrow> char \<Rightarrow> char \<Rightarrow> char \<Rightarrow> nat option" where
  "hex4 h1 h2 h3 h4 =
     (case (hexval h1, hexval h2, hexval h3, hexval h4) of
        (Some a, Some b, Some c, Some d) \<Rightarrow> Some (((a * 16 + b) * 16 + c) * 16 + d)
      | _ \<Rightarrow> None)"

text \<open>
  What follows \<^verbatim>\<open>\u\<close> in a string literal: four hexadecimal digits. A high surrogate
  followed by an escaped low surrogate is one code point; a surrogate on its own has no
  UTF-8 form and is read as U+FFFD.
\<close>

fun parse_unicode_escape :: "string \<Rightarrow> (string \<times> string) option" where
  "parse_unicode_escape (h1 # h2 # h3 # h4 # rest) =
     (case hex4 h1 h2 h3 h4 of
        None \<Rightarrow> None
      | Some n \<Rightarrow>
          if 55296 \<le> n \<and> n < 56320 then
            (case rest of
               b # u # l1 # l2 # l3 # l4 # rest' \<Rightarrow>
                 (case (if b = CHR 0x5C \<and> u = CHR ''u'' then hex4 l1 l2 l3 l4 else None) of
                    Some m \<Rightarrow>
                      if 56320 \<le> m \<and> m < 57344
                      then Some (utf8_of_code_point
                                   (65536 + (n - 55296) * 1024 + (m - 56320)), rest')
                      else Some (utf8_of_code_point 65533, rest)
                  | None \<Rightarrow> Some (utf8_of_code_point 65533, rest))
             | _ \<Rightarrow> Some (utf8_of_code_point 65533, rest))
          else if 56320 \<le> n \<and> n < 57344 then Some (utf8_of_code_point 65533, rest)
          else Some (utf8_of_code_point n, rest))"
| "parse_unicode_escape _ = None"

text \<open>What follows a backslash in a string literal.\<close>

fun parse_escape :: "string \<Rightarrow> (string \<times> string) option" where
  "parse_escape [] = None"
| "parse_escape (e # cs) =
     (if e = CHR 0x22 then Some ([CHR 0x22], cs)
      else if e = CHR 0x5C then Some ([CHR 0x5C], cs)
      else if e = CHR ''/'' then Some ([CHR ''/''], cs)
      else if e = CHR ''b'' then Some ([CHR 0x08], cs)
      else if e = CHR ''f'' then Some ([CHR 0x0C], cs)
      else if e = CHR ''n'' then Some ([CHR 0x0A], cs)
      else if e = CHR ''r'' then Some ([CHR 0x0D], cs)
      else if e = CHR ''t'' then Some ([CHR 0x09], cs)
      else if e = CHR ''u'' then parse_unicode_escape cs
      else None)"

lemma parse_unicode_escape_shorter:
  "parse_unicode_escape s = Some (d, r) \<Longrightarrow> length r < length s"
  by (induction s rule: parse_unicode_escape.induct)
     (auto split: option.splits if_splits list.splits)

lemma parse_escape_shorter: "parse_escape s = Some (d, r) \<Longrightarrow> length r < length s"
  by (cases s) (auto split: if_splits dest: parse_unicode_escape_shorter)

text \<open>
  The body of a string literal, after the opening quotation mark: the decoded text and
  what follows the closing quotation mark.
\<close>

function parse_string_body :: "string \<Rightarrow> (string \<times> string) option" where
  "parse_string_body [] = None"
| "parse_string_body (c # cs) =
     (if c = CHR 0x22 then Some ([], cs)
      else if c = CHR 0x5C then
        (case parse_escape cs of
           None \<Rightarrow> None
         | Some (d, r) \<Rightarrow>
             (case parse_string_body r of
                None \<Rightarrow> None
              | Some (t, r') \<Rightarrow> Some (d @ t, r')))
      else if (of_char c :: nat) < 32 then None
      else (case parse_string_body cs of
              None \<Rightarrow> None
            | Some (t, r') \<Rightarrow> Some (c # t, r')))"
  by pat_completeness auto
termination
  by (relation "measure length") (auto dest: parse_escape_shorter)

definition is_ws :: "char \<Rightarrow> bool" where
  "is_ws c \<longleftrightarrow> c = CHR 0x20 \<or> c = CHR 0x09 \<or> c = CHR 0x0A \<or> c = CHR 0x0D"

definition skip_ws :: "string \<Rightarrow> string" where
  "skip_ws s = dropWhile is_ws s"

definition is_digit :: "char \<Rightarrow> bool" where
  "is_digit c \<longleftrightarrow> 48 \<le> (of_char c :: nat) \<and> (of_char c :: nat) \<le> 57"

text \<open>
  A number: \<^verbatim>\<open>-? (0 | [1-9][0-9]*) (. [0-9]+)? ([eE] [+-]? [0-9]+)?\<close>. The result is the
  literal and the rest of the input.
\<close>

definition parse_int_part :: "string \<Rightarrow> (string \<times> string) option" where
  "parse_int_part s =
     (case s of
        [] \<Rightarrow> None
      | c # cs \<Rightarrow>
          if c = CHR ''0'' then Some ([c], cs)
          else if is_digit c then Some (takeWhile is_digit s, dropWhile is_digit s)
          else None)"

definition parse_frac_part :: "string \<Rightarrow> (string \<times> string) option" where
  "parse_frac_part s =
     (case s of
        c # cs \<Rightarrow>
          if c = CHR ''.'' then
            (if takeWhile is_digit cs = [] then None
             else Some (c # takeWhile is_digit cs, dropWhile is_digit cs))
          else Some ([], s)
      | [] \<Rightarrow> Some ([], s))"

definition parse_exp_part :: "string \<Rightarrow> (string \<times> string) option" where
  "parse_exp_part s =
     (case s of
        c # cs \<Rightarrow>
          if c = CHR ''e'' \<or> c = CHR ''E'' then
            (let (sg, ds) =
               (case cs of
                  g # gs \<Rightarrow> if g = CHR ''+'' \<or> g = CHR ''-'' then ([g], gs) else ([], cs)
                | [] \<Rightarrow> ([], cs))
             in if takeWhile is_digit ds = [] then None
                else Some (c # sg @ takeWhile is_digit ds, dropWhile is_digit ds))
          else Some ([], s)
      | [] \<Rightarrow> Some ([], s))"

definition parse_number :: "string \<Rightarrow> (string \<times> string) option" where
  "parse_number s =
     (let (sg, s1) = (case s of c # cs \<Rightarrow> if c = CHR ''-'' then ([c], cs) else ([], s)
                               | [] \<Rightarrow> ([], s))
      in case parse_int_part s1 of
           None \<Rightarrow> None
         | Some (ip, s2) \<Rightarrow>
             (case parse_frac_part s2 of
                None \<Rightarrow> None
              | Some (fp, s3) \<Rightarrow>
                  (case parse_exp_part s3 of
                     None \<Rightarrow> None
                   | Some (ep, s4) \<Rightarrow> Some (sg @ ip @ fp @ ep, s4))))"

definition strip_prefix :: "string \<Rightarrow> string \<Rightarrow> string option" where
  "strip_prefix p s = (if take (length p) s = p then Some (drop (length p) s) else None)"

text \<open>
  A value, the elements of an array after its first bracket and the members of an object
  after its first brace. The first argument bounds the depth of the recursion; \<open>json_parse\<close>
  starts it above what a text of that length can use.
\<close>

fun parse_value :: "nat \<Rightarrow> string \<Rightarrow> (json \<times> string) option"
  and parse_elements :: "nat \<Rightarrow> string \<Rightarrow> (json list \<times> string) option"
  and parse_members :: "nat \<Rightarrow> string \<Rightarrow> ((string \<times> json) list \<times> string) option"
where
  "parse_value 0 s = None"
| "parse_value (Suc n) s =
     (case skip_ws s of
        [] \<Rightarrow> None
      | c # cs \<Rightarrow>
          if c = CHR 0x22 then
            (case parse_string_body cs of
               None \<Rightarrow> None
             | Some (t, r) \<Rightarrow> Some (JString t, r))
          else if c = CHR ''['' then
            (case skip_ws cs of
               [] \<Rightarrow> None
             | d # ds \<Rightarrow>
                 if d = CHR '']'' then Some (JArray [], ds)
                 else (case parse_elements n cs of
                         None \<Rightarrow> None
                       | Some (vs, r) \<Rightarrow> Some (JArray vs, r)))
          else if c = CHR 0x7B then
            (case skip_ws cs of
               [] \<Rightarrow> None
             | d # ds \<Rightarrow>
                 if d = CHR 0x7D then Some (JObject [], ds)
                 else (case parse_members n cs of
                         None \<Rightarrow> None
                       | Some (ms, r) \<Rightarrow> Some (JObject ms, r)))
          else if c = CHR ''t'' then map_option (Pair (JBool True)) (strip_prefix ''rue'' cs)
          else if c = CHR ''f'' then map_option (Pair (JBool False)) (strip_prefix ''alse'' cs)
          else if c = CHR ''n'' then map_option (Pair JNull) (strip_prefix ''ull'' cs)
          else (case parse_number (c # cs) of
                  None \<Rightarrow> None
                | Some (lit, r) \<Rightarrow> Some (JNumber lit, r)))"
| "parse_elements 0 s = None"
| "parse_elements (Suc n) s =
     (case parse_value n s of
        None \<Rightarrow> None
      | Some (v, r) \<Rightarrow>
          (case skip_ws r of
             [] \<Rightarrow> None
           | d # ds \<Rightarrow>
               if d = CHR '','' then
                 (case parse_elements n ds of
                    None \<Rightarrow> None
                  | Some (vs, r') \<Rightarrow> Some (v # vs, r'))
               else if d = CHR '']'' then Some ([v], ds)
               else None))"
| "parse_members 0 s = None"
| "parse_members (Suc n) s =
     (case skip_ws s of
        [] \<Rightarrow> None
      | q # qs \<Rightarrow>
          if q \<noteq> CHR 0x22 then None
          else
            (case parse_string_body qs of
               None \<Rightarrow> None
             | Some (k, r) \<Rightarrow>
                 (case skip_ws r of
                    [] \<Rightarrow> None
                  | col # r1 \<Rightarrow>
                      if col \<noteq> CHR 0x3A then None
                      else
                        (case parse_value n r1 of
                           None \<Rightarrow> None
                         | Some (v, r2) \<Rightarrow>
                             (case skip_ws r2 of
                                [] \<Rightarrow> None
                              | d # ds \<Rightarrow>
                                  if d = CHR '','' then
                                    (case parse_members n ds of
                                       None \<Rightarrow> None
                                     | Some (ms, r') \<Rightarrow> Some ((k, v) # ms, r'))
                                  else if d = CHR 0x7D then Some ([(k, v)], ds)
                                  else None)))))"

text \<open>\<^verbatim>\<open>JSON.parse\<close> and \<^verbatim>\<open>jsonDecode\<close>: one value, with nothing but white space after it.\<close>

definition json_parse :: "string \<Rightarrow> error + json" where
  "json_parse s =
     (case parse_value (2 * length s + 2) s of
        None \<Rightarrow> Inl JsonSyntaxError
      | Some (v, r) \<Rightarrow> if skip_ws r = [] then Inr v else Inl JsonSyntaxError)"

subsection \<open>Big integers as text and as bytes\<close>

text \<open>\<^verbatim>\<open>BigInt.toRadixString(16)\<close>: lowercase digits, no leading zero, a minus sign if negative.\<close>

fun to_hex :: "nat \<Rightarrow> string" where
  "to_hex n = (if n < 16 then [hexdigit n] else to_hex (n div 16) @ [hexdigit (n mod 16)])"

declare to_hex.simps [simp del]

text \<open>\<^verbatim>\<open>toString()\<close> of an integer: decimal digits.\<close>

fun show_nat :: "nat \<Rightarrow> string" where
  "show_nat n =
     (if n < 10 then [char_of (48 + n)] else show_nat (n div 10) @ [char_of (48 + n mod 10)])"

declare show_nat.simps [simp del]

definition show_int :: "int \<Rightarrow> string" where
  "show_int i = (if i < 0 then CHR ''-'' # show_nat (nat (- i)) else show_nat (nat i))"

text \<open>The unsigned big-endian value of a buffer, and the shortest buffer of a value.\<close>

definition be_int :: "bytes \<Rightarrow> nat" where
  "be_int bs = foldl (\<lambda>acc b. 256 * acc + unat b) 0 bs"

fun be_bytes :: "nat \<Rightarrow> bytes" where
  "be_bytes n = (if n = 0 then [] else be_bytes (n div 256) @ [of_nat (n mod 256)])"

declare be_bytes.simps [simp del]

text \<open>The \<open>n\<close> bytes of a fixed-width value, most significant first (a digest, a tag).\<close>

definition word_bytes :: "nat \<Rightarrow> 'a::len word \<Rightarrow> bytes" where
  "word_bytes n w = map (\<lambda>i. ucast (drop_bit (8 * (n - 1 - i)) w)) [0..<n]"

text \<open>
  \<^verbatim>\<open>Buffer.from(s, 'hex')\<close> of Node.js: it decodes pairs of hexadecimal digits and stops,
  without an error, at the first pair that is not one; a last single digit is dropped.
\<close>

fun node_hex_decode :: "string \<Rightarrow> bytes" where
  "node_hex_decode (c1 # c2 # rest) =
     (case (hexval c1, hexval c2) of
        (Some a, Some b) \<Rightarrow> of_nat (16 * a + b) # node_hex_decode rest
      | _ \<Rightarrow> [])"
| "node_hex_decode _ = []"

text \<open>\<^verbatim>\<open>BigInt.modPow\<close>: the exponent must not be negative and the modulus must be positive.\<close>

definition modPow :: "int \<Rightarrow> int \<Rightarrow> int \<Rightarrow> error + int" where
  "modPow b e m = (if e < 0 \<or> m \<le> 0 then Inl RangeError else Inr (b ^ nat e mod m))"

text \<open>\<^verbatim>\<open>String.substring(0, n)\<close> of Dart throws a \<^verbatim>\<open>RangeError\<close> past the end of the string.\<close>

definition dart_substring0 :: "nat \<Rightarrow> string \<Rightarrow> error + string" where
  "dart_substring0 n s = (if length s < n then Inl RangeError else Inr (take n s))"

section \<open>The platform libraries\<close>

text \<open>
  The hash functions and the block cipher are not part of the repository: they are the
  fields of a record that every function of the model takes as its first argument. So are
  the answers of the platform's decoders on input that is not in canonical form, where
  Node.js and Dart differ from each other and between versions.
\<close>

record lib =
  sha256 :: "bytes \<Rightarrow> 256 word"
  sha512 :: "bytes \<Rightarrow> 512 word"
  gcm_keystream :: "bytes \<Rightarrow> bytes \<Rightarrow> nat \<Rightarrow> byte"
    \<comment> \<open>key, IV, position: the byte of the AES counter-mode key stream\<close>
  gcm_tag :: "bytes \<Rightarrow> bytes \<Rightarrow> bytes \<Rightarrow> 128 word"
    \<comment> \<open>key, IV, ciphertext: the 128-bit GCM tag (no associated data)\<close>
  utf8_decode :: "bytes \<Rightarrow> error + string"
    \<comment> \<open>strict in Dart (\<^verbatim>\<open>utf8.decode\<close> throws), lossy in Node.js (never fails)\<close>
  base64_other :: "string \<Rightarrow> error + bytes"
    \<comment> \<open>the base64 decoder on text that is not canonical base64\<close>
  hash_hex_other :: "string \<Rightarrow> error + bytes"
    \<comment> \<open>\<^verbatim>\<open>hash.update(s, 'hex')\<close> on text that is not an even number of hex digits\<close>
  int_parse_other :: "string \<Rightarrow> int option"
    \<comment> \<open>\<^verbatim>\<open>int.parse(s, radix: 16)\<close> on text that is not a plain sequence of hex digits\<close>
  bigint_parse_other :: "string \<Rightarrow> int option"
    \<comment> \<open>\<^verbatim>\<open>BigInt.parse(s, radix: 16)\<close> on text that is not a plain sequence of hex digits\<close>

definition sha256_bytes :: "lib \<Rightarrow> bytes \<Rightarrow> bytes" where
  "sha256_bytes L m = word_bytes 32 (sha256 L m)"

definition sha512_bytes :: "lib \<Rightarrow> bytes \<Rightarrow> bytes" where
  "sha512_bytes L m = word_bytes 64 (sha512 L m)"

definition lib_base64_decode :: "lib \<Rightarrow> string \<Rightarrow> error + bytes" where
  "lib_base64_decode L s = (case base64_decode s of Some bs \<Rightarrow> Inr bs | None \<Rightarrow> base64_other L s)"

definition int_parse16 :: "lib \<Rightarrow> string \<Rightarrow> int option" where
  "int_parse16 L s = (if s \<noteq> [] \<and> is_hex s then Some (int (hex_value s)) else int_parse_other L s)"

definition bigint_parse16 :: "lib \<Rightarrow> string \<Rightarrow> int option" where
  "bigint_parse16 L s =
     (if s \<noteq> [] \<and> is_hex s then Some (int (hex_value s)) else bigint_parse_other L s)"

definition node_hash_update_hex :: "lib \<Rightarrow> string \<Rightarrow> error + bytes" where
  "node_hash_update_hex L s =
     (if even (length s) \<and> is_hex s then Inr (node_hex_decode s) else hash_hex_other L s)"

subsection \<open>AES-256-GCM (NIST SP 800-38D), from the key stream and the tag function\<close>

fun ctr_xor :: "(nat \<Rightarrow> byte) \<Rightarrow> nat \<Rightarrow> bytes \<Rightarrow> bytes" where
  "ctr_xor ks i [] = []"
| "ctr_xor ks i (b # bs) = (b XOR ks i) # ctr_xor ks (Suc i) bs"

definition gcm_crypt :: "lib \<Rightarrow> bytes \<Rightarrow> bytes \<Rightarrow> bytes \<Rightarrow> bytes" where
  "gcm_crypt L key iv data = ctr_xor (gcm_keystream L key iv) 0 data"

definition gcm_tag_bytes :: "lib \<Rightarrow> bytes \<Rightarrow> bytes \<Rightarrow> bytes \<Rightarrow> bytes" where
  "gcm_tag_bytes L key iv ct = word_bytes 16 (gcm_tag L key iv ct)"

text \<open>
  Node.js: \<^verbatim>\<open>createCipheriv('aes-256-gcm', key, iv)\<close> refuses a key that is not 32 bytes and
  an empty IV; \<^verbatim>\<open>update\<close> and \<^verbatim>\<open>final\<close> give the ciphertext, \<^verbatim>\<open>getAuthTag\<close> the 16-byte tag.
\<close>

definition node_cipher_params_ok :: "bytes \<Rightarrow> bytes \<Rightarrow> bool" where
  "node_cipher_params_ok key iv \<longleftrightarrow> length key = 32 \<and> iv \<noteq> []"

definition node_gcm_encrypt :: "lib \<Rightarrow> bytes \<Rightarrow> bytes \<Rightarrow> bytes \<Rightarrow> error + bytes \<times> bytes" where
  "node_gcm_encrypt L key iv pt =
     (if \<not> node_cipher_params_ok key iv then Inl CipherParamError
      else (let ct = gcm_crypt L key iv pt in Inr (ct, gcm_tag_bytes L key iv ct)))"

text \<open>
  \<^verbatim>\<open>setAuthTag\<close> accepts the tag lengths of the standard; \<^verbatim>\<open>final\<close> compares the tag given
  with the tag of the ciphertext, cut to the length given, and throws if they differ.
\<close>

definition node_tag_length_ok :: "bytes \<Rightarrow> bool" where
  "node_tag_length_ok tag \<longleftrightarrow> length tag \<in> set [4, 8, 12, 13, 14, 15, 16]"

definition node_decipher_final :: "lib \<Rightarrow> bytes \<Rightarrow> bytes \<Rightarrow> bytes \<Rightarrow> bytes \<Rightarrow> error + bytes" where
  "node_decipher_final L key iv authTag ct =
     (if authTag = take (length authTag) (gcm_tag_bytes L key iv ct)
      then Inr (gcm_crypt L key iv ct)
      else Inl AuthenticationError)"

text \<open>
  PointyCastle: \<^verbatim>\<open>GCMBlockCipher(AESEngine())\<close> with a 128-bit tag. Encrypting returns the
  ciphertext followed by the tag; decrypting takes the last 16 bytes of its input as the
  tag and throws if they are not the tag of the bytes before them.
\<close>

definition pc_key_ok :: "bytes \<Rightarrow> bool" where
  "pc_key_ok key \<longleftrightarrow> length key \<in> set [16, 24, 32]"

definition pc_gcm_encrypt :: "lib \<Rightarrow> bytes \<Rightarrow> bytes \<Rightarrow> bytes \<Rightarrow> error + bytes" where
  "pc_gcm_encrypt L key iv pt =
     (if \<not> pc_key_ok key then Inl CipherParamError
      else (let ct = gcm_crypt L key iv pt in Inr (ct @ gcm_tag_bytes L key iv ct)))"

definition pc_gcm_decrypt :: "lib \<Rightarrow> bytes \<Rightarrow> bytes \<Rightarrow> bytes \<Rightarrow> error + bytes" where
  "pc_gcm_decrypt L key iv data =
     (if \<not> pc_key_ok key then Inl CipherParamError
      else if length data < 16 then Inl CipherParamError
      else (let ct = take (length data - 16) data; tag = drop (length data - 16) data
            in if tag = gcm_tag_bytes L key iv ct then Inr (gcm_crypt L key iv ct)
               else Inl AuthenticationError))"

section \<open>The TypeScript backend\<close>

text \<open>
  The random IV of \<^verbatim>\<open>randomBytes(16)\<close> is the argument \<open>iv\<close>. A thrown \<^verbatim>\<open>Error\<close> is \<open>Inl\<close>.
\<close>

subsection \<open>\<^verbatim>\<open>encryption.ts\<close> and \<^verbatim>\<open>decryption.ts\<close>\<close>

definition encrypt_ts :: "lib \<Rightarrow> bytes \<Rightarrow> string \<Rightarrow> string \<Rightarrow> error + string" where
  "encrypt_ts L iv plainText password =
     (let genHash = hex_encode (sha512_bytes L (utf8_encode password));
          key = take 32 genHash
      in and_then (node_gcm_encrypt L (utf8_encode key) iv (utf8_encode plainText))
           (\<lambda>(encrypted, authTag).
              Inr (base64_encode encrypted @ '':'' @ base64_encode iv @ '':'' @
                   base64_encode authTag)))"

definition decrypt_ts :: "lib \<Rightarrow> string \<Rightarrow> string \<Rightarrow> error + json" where
  "decrypt_ts L encryptedText password =
     (let genHash = hex_encode (sha512_bytes L (utf8_encode password));
          key = take 32 genHash;
          result = str_split encryptedText
      in if length result \<noteq> 3 then Inl FormatError
         else
           and_then (lib_base64_decode L (result ! 1)) (\<lambda>iv.
           and_then (lib_base64_decode L (result ! 2)) (\<lambda>authTag.
             if \<not> node_cipher_params_ok (utf8_encode key) iv then Inl CipherParamError
             else if \<not> node_tag_length_ok authTag then Inl CipherParamError
             else
               and_then (lib_base64_decode L (result ! 0)) (\<lambda>ct.
               and_then (node_decipher_final L (utf8_encode key) iv authTag ct) (\<lambda>bs.
               and_then (utf8_decode L bs) (\<lambda>decrypted.
                 json_parse decrypted))))))"

subsection \<open>\<^verbatim>\<open>dh-encryption.ts\<close>\<close>

definition dhEncrypt_ts :: "lib \<Rightarrow> bytes \<Rightarrow> string \<Rightarrow> string \<Rightarrow> error + string" where
  "dhEncrypt_ts L iv plainText sharedSecret =
     and_then (node_hash_update_hex L sharedSecret) (\<lambda>secretBytes.
       let genHash = hex_encode (sha512_bytes L secretBytes);
           key = take 32 genHash
       in and_then (node_gcm_encrypt L (utf8_encode key) iv (utf8_encode plainText))
            (\<lambda>(encrypted, authTag).
               Inr (base64_encode encrypted @ '':'' @ base64_encode iv @ '':'' @
                    base64_encode authTag)))"

definition dhDecrypt_ts :: "lib \<Rightarrow> string \<Rightarrow> string \<Rightarrow> error + json" where
  "dhDecrypt_ts L encryptedText sharedSecret =
     (let result = str_split encryptedText
      in if length result \<noteq> 3 then Inl FormatError
         else
           and_then (node_hash_update_hex L sharedSecret) (\<lambda>secretBytes.
             let genHash = hex_encode (sha512_bytes L secretBytes);
                 key = take 32 genHash
             in
               and_then (lib_base64_decode L (result ! 1)) (\<lambda>iv.
               and_then (lib_base64_decode L (result ! 2)) (\<lambda>authTag.
                 if \<not> node_cipher_params_ok (utf8_encode key) iv then Inl CipherParamError
                 else if \<not> node_tag_length_ok authTag then Inl CipherParamError
                 else
                   and_then (lib_base64_decode L (result ! 0)) (\<lambda>ct.
                   and_then (node_decipher_final L (utf8_encode key) iv authTag ct) (\<lambda>bs.
                   and_then (utf8_decode L bs) (\<lambda>decrypted.
                     json_parse decrypted)))))))"

subsection \<open>\<^verbatim>\<open>diffie-hellman.ts\<close>\<close>

definition PRIME_2048 :: string where
  "PRIME_2048 =
     ''FFFFFFFFFFFFFFFFC90FDAA22168C234C4C6628B80DC1CD1'' @
     ''29024E088A67CC74020BBEA63B139B22514A08798E3404DD'' @
     ''EF9519B3CD3A431B302B0A6DF25F14374FE1356D6D51C245'' @
     ''E485B576625E7EC6F44C42E9A637ED6B0BFF5CB6F406B7ED'' @
     ''EE386BFB5A899FA5AE9F24117C4B1FE649286651ECE45B3D'' @
     ''C2007CB8A163BF0598DA48361C55D39A69163FA8FD24CF5F'' @
     ''83655D23DCA3AD961C62F356208552BB9ED529077096966D'' @
     ''670C354E4ABC9804F1746C08CA18217C32905E462E36CE3B'' @
     ''E39E772C180E86039B2783A2EC07A28FB5C55DF06F4C52C9'' @
     ''DE2BCBF6955817183995497CEA956AE515D2261898FA0510'' @
     ''15728E5A8AACAA68FFFFFFFFFFFFFFFF''"

definition GENERATOR :: nat where
  "GENERATOR = 2"

record DHKeyPair =
  privateKey :: string
  publicKey :: string

text \<open>
  \<^verbatim>\<open>createDiffieHellman(PRIME_2048, 'hex', GENERATOR)\<close>: the group of the object.
  \<^verbatim>\<open>generateKeys()\<close> draws a private key when none is set (the argument \<open>x\<close> below) and
  computes the public key.

  \<^verbatim>\<open>computeSecret\<close> (Node.js 22 on OpenSSL 3) first checks the other public key \<open>y\<close> with
  \<^verbatim>\<open>DH_check_pub_key\<close>: it throws \<^verbatim>\<open>Supplied key is too small\<close> for \<open>y \<le> 1\<close> and
  \<^verbatim>\<open>Supplied key is too large\<close> for \<open>y \<ge> p - 1\<close>. It then raises the key to the private key.
  \<^verbatim>\<open>DH_compute_key\<close> refuses a shared value \<open>z\<close> with \<open>z \<le> 1\<close> or \<open>z = p - 1\<close>, and Node.js
  then returns an empty buffer without an error; every other value is padded with zero
  bytes to the length of the prime.
\<close>

definition node_dh_prime :: nat where
  "node_dh_prime = be_int (node_hex_decode PRIME_2048)"

definition node_dh_public :: "nat \<Rightarrow> bytes" where
  "node_dh_public x = be_bytes (GENERATOR ^ x mod node_dh_prime)"

definition pad_left :: "nat \<Rightarrow> bytes \<Rightarrow> bytes" where
  "pad_left n bs = replicate (n - length bs) 0 @ bs"

definition dh_check_pub_key :: "nat \<Rightarrow> bool" where
  "dh_check_pub_key y = (1 < y \<and> y + 1 < node_dh_prime)"

definition node_dh_secret :: "nat \<Rightarrow> bytes" where
  "node_dh_secret z =
     (if z \<le> 1 \<or> z = node_dh_prime - 1 then []
      else pad_left (length (node_hex_decode PRIME_2048)) (be_bytes z))"

definition node_dh_computeSecret :: "nat \<Rightarrow> bytes \<Rightarrow> error + bytes" where
  "node_dh_computeSecret x otherPublicKey =
     (if \<not> dh_check_pub_key (be_int otherPublicKey) then Inl InvalidKey
      else Inr (node_dh_secret (be_int otherPublicKey ^ x mod node_dh_prime)))"

text \<open>\<^verbatim>\<open>if (password)\<close>: an absent password and the empty string are both false.\<close>

definition truthy :: "string option \<Rightarrow> string option" where
  "truthy password = (case password of None \<Rightarrow> None | Some w \<Rightarrow> if w = [] then None else Some w)"

definition generateDHKeyPair_ts :: "lib \<Rightarrow> nat \<Rightarrow> int \<Rightarrow> string option \<Rightarrow> DHKeyPair" where
  "generateDHKeyPair_ts L x now password =
     (let privKey = be_bytes x;
          pubKey = node_dh_public x
      in case truthy password of
           Some w \<Rightarrow>
             (let passwordHash = sha256_bytes L (utf8_encode (w @ show_int now));
                  enhancedPrivateKey = sha256_bytes L (privKey @ passwordHash)
              in \<lparr>privateKey = hex_encode enhancedPrivateKey,
                  publicKey = hex_encode (node_dh_public (be_int enhancedPrivateKey))\<rparr>)
         | None \<Rightarrow> \<lparr>privateKey = hex_encode privKey, publicKey = hex_encode pubKey\<rparr>)"

definition computeSharedSecret_ts :: "lib \<Rightarrow> string \<Rightarrow> string \<Rightarrow> string option \<Rightarrow> error + string" where
  "computeSharedSecret_ts L privKey otherPublicKey password =
     and_then (node_dh_computeSecret (be_int (node_hex_decode privKey))
                 (node_hex_decode otherPublicKey))
       (\<lambda>sharedSecret.
          case truthy password of
            Some w \<Rightarrow> Inr (hex_encode (sha512_bytes L (sharedSecret @ utf8_encode w)))
          | None \<Rightarrow> Inr (hex_encode (sha256_bytes L sharedSecret)))"

text \<open>
  \<^verbatim>\<open>Buffer.from\<close> does not throw on a string, so the \<^verbatim>\<open>catch\<close> branch is never taken.
\<close>

definition validatePublicKey_ts :: "string \<Rightarrow> bool" where
  "validatePublicKey_ts pubKey =
     (let keyBuffer = node_hex_decode pubKey
      in length keyBuffer > 100 \<and> length keyBuffer < 1000)"

section \<open>The Dart frontend\<close>

subsection \<open>Helpers of \<^verbatim>\<open>diffie_hellman.dart\<close> and \<^verbatim>\<open>dh_encryption.dart\<close>\<close>

definition hexToBigInt :: "lib \<Rightarrow> string \<Rightarrow> error + int" where
  "hexToBigInt L hex = (case bigint_parse16 L hex of None \<Rightarrow> Inl DecodeError | Some v \<Rightarrow> Inr v)"

definition bigIntToHex :: "int \<Rightarrow> string" where
  "bigIntToHex v = (if v < 0 then CHR ''-'' # to_hex (nat (- v)) else to_hex (nat v))"

fun hex_pairs :: "string \<Rightarrow> string list" where
  "hex_pairs (c1 # c2 # rest) = [c1, c2] # hex_pairs rest"
| "hex_pairs [c] = [[c]]"
| "hex_pairs [] = []"

fun parse_pairs :: "lib \<Rightarrow> string list \<Rightarrow> error + bytes" where
  "parse_pairs L [] = Inr []"
| "parse_pairs L (p # ps) =
     (case int_parse16 L p of
        None \<Rightarrow> Inl DecodeError
      | Some v \<Rightarrow> and_then (parse_pairs L ps) (\<lambda>bs. Inr (of_int v # bs)))"

definition hexToBytes :: "lib \<Rightarrow> string \<Rightarrow> error + bytes" where
  "hexToBytes L hex =
     (let hex' = (if length hex mod 2 \<noteq> 0 then CHR ''0'' # hex else hex)
      in parse_pairs L (hex_pairs hex'))"

definition generateRandomBigInt :: "lib \<Rightarrow> bytes \<Rightarrow> error + int" where
  "generateRandomBigInt L randomBytes = hexToBigInt L (hex_encode randomBytes)"

subsection \<open>\<^verbatim>\<open>encryption.dart\<close> and \<^verbatim>\<open>decryption.dart\<close>\<close>

definition encrypt_dart :: "lib \<Rightarrow> bytes \<Rightarrow> string \<Rightarrow> string \<Rightarrow> error + string" where
  "encrypt_dart L iv plainText password =
     try_catch ''Encryption failed''
       (let keyString = hex_encode (sha512_bytes L (utf8_encode password))
        in and_then (dart_substring0 32 keyString) (\<lambda>k.
           let key = utf8_encode k;
               jsonPlainText = json_encode_string plainText;
               plainTextBytes = utf8_encode jsonPlainText
           in and_then (pc_gcm_encrypt L key iv plainTextBytes) (\<lambda>encryptedBytes.
              if length encryptedBytes < 16 then Inl RangeError
              else
                (let encryptedData = take (length encryptedBytes - 16) encryptedBytes;
                     authTag = drop (length encryptedBytes - 16) encryptedBytes
                 in Inr (base64_encode encryptedData @ '':'' @ base64_encode iv @ '':'' @
                         base64_encode authTag)))))"

definition decrypt_dart :: "lib \<Rightarrow> string \<Rightarrow> string \<Rightarrow> error + json" where
  "decrypt_dart L encryptedText password =
     try_catch ''Decryption failed''
       (let parts = str_split encryptedText
        in if length parts \<noteq> 3 then Inl FormatError
           else
             and_then (lib_base64_decode L (parts ! 0)) (\<lambda>encryptedData.
             and_then (lib_base64_decode L (parts ! 1)) (\<lambda>iv.
             and_then (lib_base64_decode L (parts ! 2)) (\<lambda>authTag.
               let keyString = hex_encode (sha512_bytes L (utf8_encode password))
               in and_then (dart_substring0 32 keyString) (\<lambda>k.
                  let key = utf8_encode k;
                      combinedData = encryptedData @ authTag
                  in and_then (pc_gcm_decrypt L key iv combinedData) (\<lambda>decryptedBytes.
                     and_then (utf8_decode L decryptedBytes) (\<lambda>decryptedString.
                       json_parse decryptedString)))))))"

subsection \<open>\<^verbatim>\<open>dh_encryption.dart\<close>\<close>

definition dhEncrypt_dart :: "lib \<Rightarrow> bytes \<Rightarrow> string \<Rightarrow> string \<Rightarrow> error + string" where
  "dhEncrypt_dart L iv plainText sharedSecret =
     try_catch ''DH encryption failed''
       (and_then (hexToBytes L sharedSecret) (\<lambda>sharedSecretBytes.
        let keyString = hex_encode (sha512_bytes L sharedSecretBytes)
        in and_then (dart_substring0 32 keyString) (\<lambda>k.
           let key = utf8_encode k;
               jsonPlainText = json_encode_string plainText;
               plainTextBytes = utf8_encode jsonPlainText
           in and_then (pc_gcm_encrypt L key iv plainTextBytes) (\<lambda>encryptedBytes.
              if length encryptedBytes < 16 then Inl RangeError
              else
                (let encryptedData = take (length encryptedBytes - 16) encryptedBytes;
                     authTag = drop (length encryptedBytes - 16) encryptedBytes
                 in Inr (base64_encode encryptedData @ '':'' @ base64_encode iv @ '':'' @
                         base64_encode authTag))))))"

definition dhDecrypt_dart :: "lib \<Rightarrow> string \<Rightarrow> string \<Rightarrow> error + json" where
  "dhDecrypt_dart L encryptedText sharedSecret =
     try_catch ''DH decryption failed''
       (let parts = str_split encryptedText
        in if length parts \<noteq> 3 then Inl FormatError
           else
             and_then (lib_base64_decode L (parts ! 0)) (\<lambda>encryptedData.
             and_then (lib_base64_decode L (parts ! 1)) (\<lambda>iv.
             and_then (lib_base64_decode L (parts ! 2)) (\<lambda>authTag.
             and_then (hexToBytes L sharedSecret) (\<lambda>sharedSecretBytes.
               let keyString = hex_encode (sha512_bytes L sharedSecretBytes)
               in and_then (dart_substring0 32 keyString) (\<lambda>k.
                  let key = utf8_encode k;
                      combinedData = encryptedData @ authTag
                  in and_then (pc_gcm_decrypt L key iv combinedData) (\<lambda>decryptedBytes.
                     and_then (utf8_decode L decryptedBytes) (\<lambda>decryptedString.
                       json_parse decryptedString))))))))"

subsection \<open>\<^verbatim>\<open>diffie_hellman.dart\<close>\<close>

definition prime2048 :: string where
  "prime2048 = PRIME_2048"

definition generator :: int where
  "generator = 2"

text \<open>
  The \<^verbatim>\<open>do ... while\<close> loop that draws the private key. The random source is an endless
  sequence of bytes; the attempt number \<open>k\<close> reads its \<open>k\<close>-th block of 256 bytes. The loop
  has no bound in the source, so its result is an option: \<open>None\<close> if no attempt is ever
  in range.
\<close>

partial_function (option) sample_private_key ::
  "lib \<Rightarrow> int \<Rightarrow> (nat \<Rightarrow> byte) \<Rightarrow> nat \<Rightarrow> (error + int) option" where
  "sample_private_key L prime rnd k =
     (case generateRandomBigInt L (map rnd [k * 256 ..< k * 256 + 256]) of
        Inl e \<Rightarrow> Some (Inl e)
      | Inr privKey \<Rightarrow>
          if privKey \<ge> prime \<or> privKey \<le> 1 then sample_private_key L prime rnd (Suc k)
          else Some (Inr privKey))"

declare sample_private_key.simps [code]

definition generateDHKeyPair_dart ::
  "lib \<Rightarrow> (nat \<Rightarrow> byte) \<Rightarrow> int \<Rightarrow> string option \<Rightarrow> (error + DHKeyPair) option" where
  "generateDHKeyPair_dart L rnd now password =
     map_option (try_catch ''DH key generation failed'')
       (case hexToBigInt L prime2048 of
          Inl e \<Rightarrow> Some (Inl e)
        | Inr prime \<Rightarrow>
            (case sample_private_key L prime rnd 0 of
               None \<Rightarrow> None
             | Some (Inl e) \<Rightarrow> Some (Inl e)
             | Some (Inr privKey) \<Rightarrow>
                 Some
                   (and_then (modPow generator privKey prime) (\<lambda>pubKey.
                      case password of
                        Some w \<Rightarrow>
                          (let passwordHash = sha256_bytes L (utf8_encode (w @ show_int now))
                           in and_then (hexToBytes L (bigIntToHex privKey)) (\<lambda>privateKeyBytes.
                              let combined = privateKeyBytes @ passwordHash;
                                  enhancedHash = sha256_bytes L combined
                              in and_then (dart_substring0 64 (hex_encode enhancedHash)) (\<lambda>h.
                                 and_then (hexToBigInt L h) (\<lambda>enhancedPrivateKey.
                                 let validPrivateKey = enhancedPrivateKey mod (prime - 1) + 1
                                 in and_then (modPow generator validPrivateKey prime)
                                      (\<lambda>enhancedPublicKey.
                                         Inr \<lparr>privateKey = bigIntToHex validPrivateKey,
                                              publicKey = bigIntToHex enhancedPublicKey\<rparr>)))))
                      | None \<Rightarrow>
                          Inr \<lparr>privateKey = bigIntToHex privKey,
                               publicKey = bigIntToHex pubKey\<rparr>))))"

definition computeSharedSecret_dart ::
  "lib \<Rightarrow> string \<Rightarrow> string \<Rightarrow> string option \<Rightarrow> error + string" where
  "computeSharedSecret_dart L privKey otherPublicKey password =
     try_catch ''Shared secret computation failed''
       (and_then (hexToBigInt L prime2048) (\<lambda>prime.
        and_then (hexToBigInt L privKey) (\<lambda>priv.
        and_then (hexToBigInt L otherPublicKey) (\<lambda>other.
        and_then (modPow other priv prime) (\<lambda>sharedSecret.
        and_then (hexToBytes L (bigIntToHex sharedSecret)) (\<lambda>sharedSecretBytes.
          case password of
            Some w \<Rightarrow> Inr (hex_encode (sha512_bytes L (sharedSecretBytes @ utf8_encode w)))
          | None \<Rightarrow> Inr (hex_encode (sha256_bytes L sharedSecretBytes))))))))"

definition validatePublicKey_dart :: "lib \<Rightarrow> string \<Rightarrow> bool" where
  "validatePublicKey_dart L pubKey =
     (case hexToBytes L pubKey of
        Inl e \<Rightarrow> False
      | Inr keyBytes \<Rightarrow> length keyBytes > 100 \<and> length keyBytes < 1000)"

section \<open>The components of the specification\<close>

text \<open>
  The specification describes every cipher operation as a key derivation followed by an
  authenticated encryption. \<open>deriveKey\<close> follows its words: hash the secret material with
  SHA-512, write the digest as 128 hexadecimal characters, and take the UTF-8 bytes of the
  first 32 characters.
\<close>

definition deriveKey :: "lib \<Rightarrow> bytes \<Rightarrow> bytes" where
  "deriveKey L secretMaterial =
     utf8_encode (take 32 (hex_encode (sha512_bytes L secretMaterial)))"

text \<open>
  The CipherText format \<^verbatim>\<open>base64(ciphertext) + ":" + base64(iv) + ":" + base64(tag)\<close>, and the
  CipherText of the plaintext bytes \<open>pt\<close> under a key and an IV.
\<close>

definition wire_format :: "bytes \<Rightarrow> bytes \<Rightarrow> bytes \<Rightarrow> string" where
  "wire_format ct iv tag = base64_encode ct @ '':'' @ base64_encode iv @ '':'' @ base64_encode tag"

definition cipher_text :: "lib \<Rightarrow> bytes \<Rightarrow> bytes \<Rightarrow> bytes \<Rightarrow> string" where
  "cipher_text L key iv pt =
     wire_format (gcm_crypt L key iv pt) iv (gcm_tag_bytes L key iv (gcm_crypt L key iv pt))"

text \<open>
  The authenticated encryption with the key as its argument: the steps of the cipher
  functions that come after the key is derived, in each implementation.
\<close>

definition aead_encrypt_ts :: "lib \<Rightarrow> bytes \<Rightarrow> bytes \<Rightarrow> string \<Rightarrow> error + string" where
  "aead_encrypt_ts L key iv plainText =
     and_then (node_gcm_encrypt L key iv (utf8_encode plainText))
       (\<lambda>(encrypted, authTag). Inr (wire_format encrypted iv authTag))"

definition aead_decrypt_ts :: "lib \<Rightarrow> bytes \<Rightarrow> string \<Rightarrow> error + json" where
  "aead_decrypt_ts L key encryptedText =
     (let result = str_split encryptedText
      in if length result \<noteq> 3 then Inl FormatError
         else
           and_then (lib_base64_decode L (result ! 1)) (\<lambda>iv.
           and_then (lib_base64_decode L (result ! 2)) (\<lambda>authTag.
             if \<not> node_cipher_params_ok key iv then Inl CipherParamError
             else if \<not> node_tag_length_ok authTag then Inl CipherParamError
             else
               and_then (lib_base64_decode L (result ! 0)) (\<lambda>ct.
               and_then (node_decipher_final L key iv authTag ct) (\<lambda>bs.
               and_then (utf8_decode L bs) json_parse)))))"

definition aead_encrypt_dart :: "lib \<Rightarrow> bytes \<Rightarrow> bytes \<Rightarrow> string \<Rightarrow> error + string" where
  "aead_encrypt_dart L key iv plainText =
     and_then (pc_gcm_encrypt L key iv (utf8_encode (json_encode_string plainText)))
       (\<lambda>encryptedBytes.
          if length encryptedBytes < 16 then Inl RangeError
          else Inr (wire_format (take (length encryptedBytes - 16) encryptedBytes) iv
                      (drop (length encryptedBytes - 16) encryptedBytes)))"

definition aead_decrypt_dart :: "lib \<Rightarrow> bytes \<Rightarrow> string \<Rightarrow> error + json" where
  "aead_decrypt_dart L key encryptedText =
     (let parts = str_split encryptedText
      in if length parts \<noteq> 3 then Inl FormatError
         else
           and_then (lib_base64_decode L (parts ! 0)) (\<lambda>encryptedData.
           and_then (lib_base64_decode L (parts ! 1)) (\<lambda>iv.
           and_then (lib_base64_decode L (parts ! 2)) (\<lambda>authTag.
           and_then (pc_gcm_decrypt L key iv (encryptedData @ authTag)) (\<lambda>decryptedBytes.
           and_then (utf8_decode L decryptedBytes) json_parse)))))"

text \<open>
  Tampering with the tag of a CipherText: the bit \<open>i\<close> of the bytes that its third segment
  encodes is flipped (bit 0 is the least significant bit of the first byte), and the
  segment is encoded again.
\<close>

definition flip_bit_at :: "nat \<Rightarrow> bytes \<Rightarrow> bytes" where
  "flip_bit_at i bs = bs[i div 8 := (bs ! (i div 8)) XOR push_bit (i mod 8) 1]"

definition flip_tag_bit :: "nat \<Rightarrow> string \<Rightarrow> string" where
  "flip_tag_bit i c =
     (case str_split c of
        [s1, s2, s3] \<Rightarrow>
          (case base64_decode s3 of
             Some tag \<Rightarrow> s1 @ '':'' @ s2 @ '':'' @ base64_encode (flip_bit_at i tag)
           | None \<Rightarrow> c)
      | _ \<Rightarrow> c)"

text \<open>
  The number that the group constant denotes, the padding of an odd number of hexadecimal
  digits with one leading zero, and the bytes that the Dart code hashes for a number
  (\<^verbatim>\<open>_hexToBytes(_bigIntToHex(n))\<close>): its shortest big-endian form, and one zero byte for 0.
\<close>

definition dh_prime :: nat where
  "dh_prime = hex_value PRIME_2048"

definition pad_even :: "string \<Rightarrow> string" where
  "pad_even s = (if length s mod 2 \<noteq> 0 then CHR ''0'' # s else s)"

definition minimal_bytes :: "nat \<Rightarrow> bytes" where
  "minimal_bytes n = (if n = 0 then [0] else be_bytes n)"

text \<open>
  The key agreement in the words of the specification: the enhanced private key
  \<^verbatim>\<open>SHA256(privateKeyBytes || passwordHash) mod (prime-1) + 1\<close> with
  \<^verbatim>\<open>passwordHash = SHA256(password || currentTimeMillis)\<close>, and the shared secret
  \<^verbatim>\<open>SHA512(rawBytes || passwordUTF8)\<close> with a password, \<^verbatim>\<open>SHA256(rawBytes)\<close> without,
  in hexadecimal.
\<close>

definition enhancedPrivateKey_spec :: "lib \<Rightarrow> bytes \<Rightarrow> string \<Rightarrow> int \<Rightarrow> nat" where
  "enhancedPrivateKey_spec L privateKeyBytes password now =
     be_int (sha256_bytes L
               (privateKeyBytes @ sha256_bytes L (utf8_encode (password @ show_int now))))
       mod (dh_prime - 1) + 1"

definition shared_secret_hash :: "lib \<Rightarrow> bytes \<Rightarrow> string option \<Rightarrow> string" where
  "shared_secret_hash L rawBytes password =
     (case password of
        Some w \<Rightarrow> hex_encode (sha512_bytes L (rawBytes @ utf8_encode w))
      | None \<Rightarrow> hex_encode (sha256_bytes L rawBytes))"

text \<open>
  The shape of a CipherText: exactly two colons, three segments of canonical base64 of
  which the second and the third are not empty and hold 16 bytes each. The first segment
  is looked at on its own.
\<close>

definition cipher_text_shape :: "string \<Rightarrow> bool" where
  "cipher_text_shape c \<longleftrightarrow>
     count_list c CHR '':'' = 2 \<and>
     (case str_split c of
        [s1, s2, s3] \<Rightarrow>
          s2 \<noteq> [] \<and> s3 \<noteq> [] \<and>
          (case (base64_decode s1, base64_decode s2, base64_decode s3) of
             (Some ct, Some iv, Some tag) \<Rightarrow> length iv = 16 \<and> length tag = 16
           | _ \<Rightarrow> False)
      | _ \<Rightarrow> False)"

definition first_segment :: "string \<Rightarrow> string" where
  "first_segment c = hd (str_split c)"

section \<open>A small executable library\<close>

text \<open>
  To run the model on a concrete input, the fields of the library record need values that
  compute. The record below has the right shapes (fixed-width digests and tags, a key
  stream, decoders that accept canonical input only) and nothing of the cryptographic
  strength of the real functions; no statement about all libraries depends on it.
\<close>

definition demo_hash :: "bytes \<Rightarrow> 'a::len word" where
  "demo_hash m = foldl (\<lambda>acc b. acc * 1099511628211 + ucast b + 1) 14695981039346656037 m"

definition demo_lib :: lib where
  "demo_lib =
     \<lparr>sha256 = demo_hash,
      sha512 = demo_hash,
      gcm_keystream = (\<lambda>key iv i. sum_list key + sum_list iv + of_nat i),
      gcm_tag = (\<lambda>key iv ct. demo_hash (key @ iv @ ct)),
      utf8_decode = (\<lambda>bs. Inr (text_of_bytes bs)),
      base64_other = (\<lambda>s. Inl DecodeError),
      hash_hex_other = (\<lambda>s. Inl DecodeError),
      int_parse_other = (\<lambda>s. None),
      bigint_parse_other = (\<lambda>s. None)\<rparr>"

text \<open>A random source whose first block of 256 bytes is the number \<open>v\<close>.\<close>

definition demo_random :: "byte \<Rightarrow> nat \<Rightarrow> byte" where
  "demo_random v i = (if i = 255 then v else 0)"

section \<open>Facts about the standard library functions\<close>

lemma char_of_byte_of_char [simp]: "char_of_byte (byte_of_char c) = c"
  by (simp add: char_of_byte_def byte_of_char_def unat_of_nat)

lemma unat_byte_less: "unat (b :: byte) < 256"
  using unsigned_less [of b, where 'a = nat] by simp

lemma byte_of_char_of_byte [simp]: "byte_of_char (char_of_byte b) = b"
  using unat_byte_less [of b] by (simp add: char_of_byte_def byte_of_char_def)

lemma text_of_bytes_utf8_encode [simp]: "text_of_bytes (utf8_encode s) = s"
  by (simp add: text_of_bytes_def utf8_encode_def comp_def)

lemma utf8_encode_text_of_bytes [simp]: "utf8_encode (text_of_bytes bs) = bs"
  by (simp add: text_of_bytes_def utf8_encode_def comp_def)

lemma length_utf8_encode [simp]: "length (utf8_encode s) = length s"
  by (simp add: utf8_encode_def)

lemma str_split_nonempty [simp]: "str_split s \<noteq> []"
  by (induction s) (auto split: list.splits)

lemma length_str_split: "length (str_split s) = Suc (count_list s CHR '':'')"
  by (induction s) (auto split: list.splits)

lemma str_split_no_colon: "CHR '':'' \<notin> set a \<Longrightarrow> str_split a = [a]"
  by (induction a) auto

lemma str_split_append:
  "CHR '':'' \<notin> set a \<Longrightarrow> str_split (a @ CHR '':'' # rest) = a # str_split rest"
  by (induction a) auto

lemma index_of_nth: "distinct xs \<Longrightarrow> n < length xs \<Longrightarrow> index_of (xs ! n) xs = Some n"
proof (induction xs arbitrary: n)
  case Nil
  then show ?case by simp
next
  case (Cons y ys)
  show ?case
  proof (cases n)
    case 0
    then show ?thesis by simp
  next
    case (Suc m)
    with Cons.prems have "ys ! m \<in> set ys" "y \<notin> set ys" by auto
    then have "ys ! m \<noteq> y" by auto
    with Cons Suc show ?thesis by auto
  qed
qed

lemma index_of_Some: "index_of x xs = Some n \<Longrightarrow> n < length xs \<and> xs ! n = x"
  by (induction xs arbitrary: n) (auto split: if_splits)

lemma index_of_None: "index_of x xs = None \<longleftrightarrow> x \<notin> set xs"
  by (induction xs) auto


lemma b64_alphabet_distinct: "distinct b64_alphabet"
  unfolding b64_alphabet_def by simp

lemma b64_alphabet_length: "length b64_alphabet = 64"
  unfolding b64_alphabet_def by simp

lemma b64val_b64char: "n < 64 \<Longrightarrow> b64val (b64char n) = Some n"
  by (simp add: b64val_def b64char_def index_of_nth b64_alphabet_distinct b64_alphabet_length)

lemma b64char_in_alphabet: "n < 64 \<Longrightarrow> b64char n \<in> set b64_alphabet"
  by (simp add: b64char_def b64_alphabet_length)

lemma colon_not_b64: "CHR '':'' \<notin> set b64_alphabet" "CHR ''='' \<notin> set b64_alphabet"
  unfolding b64_alphabet_def by simp_all

lemma b64char_neq: "n < 64 \<Longrightarrow> b64char n \<noteq> CHR '':''" "n < 64 \<Longrightarrow> b64char n \<noteq> CHR ''=''"
  using b64char_in_alphabet colon_not_b64 by metis+

lemma sextet_bounds:
  "unat (a::byte) div 4 < 64"
  "unat (a::byte) mod 4 * 16 < 64"
  "unat (a::byte) mod 4 * 16 + unat (b::byte) div 16 < 64"
  "unat (b::byte) mod 16 * 4 < 64"
  "unat (b::byte) mod 16 * 4 + unat (c::byte) div 64 < 64"
  "unat (c::byte) mod 64 < 64"
  using unat_byte_less [of a] unat_byte_less [of b] unat_byte_less [of c] by simp_all

lemma base64_encode_Nil_iff [simp]: "base64_encode bs = [] \<longleftrightarrow> bs = []"
  by (induction bs rule: base64_encode.induct) simp_all

lemma byte_recombine:
  "(of_nat (unat (a::byte) div 4 * 4 + (unat a mod 4 * 16 + unat (b::byte) div 16) div 16) :: byte) = a"
  "(of_nat ((unat (a::byte) mod 4 * 16 + unat (b::byte) div 16) mod 16 * 16 + (unat b mod 16 * 4 + unat (c::byte) div 64) div 4) :: byte) = b"
  "(of_nat ((unat (b::byte) mod 16 * 4 + unat (c::byte) div 64) mod 4 * 64 + unat c mod 64) :: byte) = c"
  "(of_nat (unat (a::byte) div 4 * 4 + (unat a mod 4 * 16) div 16) :: byte) = a"
  "(of_nat ((unat (a::byte) mod 4 * 16 + unat (b::byte) div 16) mod 16 * 16 + (unat b mod 16 * 4) div 4) :: byte) = b"
proof -
  have A: "unat a div 4 * 4 + (unat a mod 4 * 16 + unat b div 16) div 16 = unat a"
    using unat_byte_less [of b] by (simp add: div_add1_eq)
  have B: "(unat a mod 4 * 16 + unat b div 16) mod 16 * 16 + (unat b mod 16 * 4 + unat c div 64) div 4 = unat b"
    using unat_byte_less [of b] unat_byte_less [of c] by (simp add: div_add1_eq mod_add_eq) 
  have C: "(unat b mod 16 * 4 + unat c div 64) mod 4 * 64 + unat c mod 64 = unat c"
    using unat_byte_less [of c] by (simp add: mod_add_eq)
  have D: "unat a div 4 * 4 + (unat a mod 4 * 16) div 16 = unat a" by simp
  have E: "(unat a mod 4 * 16 + unat b div 16) mod 16 * 16 + (unat b mod 16 * 4) div 4 = unat b"
    using unat_byte_less [of b] by (simp add: mod_add_eq)
  show "(of_nat (unat (a::byte) div 4 * 4 + (unat a mod 4 * 16 + unat (b::byte) div 16) div 16) :: byte) = a"
    by (simp only: A) simp
  show "(of_nat ((unat (a::byte) mod 4 * 16 + unat (b::byte) div 16) mod 16 * 16 + (unat b mod 16 * 4 + unat (c::byte) div 64) div 4) :: byte) = b"
    by (simp only: B) simp
  show "(of_nat ((unat (b::byte) mod 16 * 4 + unat (c::byte) div 64) mod 4 * 64 + unat c mod 64) :: byte) = c"
    by (simp only: C) simp
  show "(of_nat (unat (a::byte) div 4 * 4 + (unat a mod 4 * 16) div 16) :: byte) = a"
    by (simp only: D) simp
  show "(of_nat ((unat (a::byte) mod 4 * 16 + unat (b::byte) div 16) mod 16 * 16 + (unat b mod 16 * 4) div 4) :: byte) = b"
    by (simp only: E) simp
qed

lemma b64_quad_encode:
  "b64_quad (b64char (unat a div 4)) (b64char (unat a mod 4 * 16 + unat b div 16))
       (b64char (unat b mod 16 * 4 + unat c div 64)) (b64char (unat c mod 64)) = Some [a, b, c]"
  by (simp only: b64_quad_def b64val_b64char sextet_bounds prod.case option.case byte_recombine)

lemma b64_pad_zero: "(n::nat) mod 4 * 16 mod 16 = 0" "(n::nat) mod 16 * 4 mod 4 = 0"
  by simp_all

lemma b64_last_encode3:
  "b64_last (b64char (unat a div 4)) (b64char (unat a mod 4 * 16 + unat b div 16))
       (b64char (unat b mod 16 * 4 + unat c div 64)) (b64char (unat c mod 64)) = Some [a, b, c]"
  by (simp add: b64_last_def b64_quad_encode b64char_neq sextet_bounds)

lemma b64_last_encode2:
  "b64_last (b64char (unat a div 4)) (b64char (unat a mod 4 * 16 + unat b div 16))
       (b64char (unat b mod 16 * 4)) CHR ''='' = Some [a, b]"
  by (simp only: b64_last_def b64val_b64char b64char_neq sextet_bounds prod.case option.case
        byte_recombine simp_thms if_False if_True b64_pad_zero)

lemma b64_last_encode1:
  "b64_last (b64char (unat a div 4)) (b64char (unat a mod 4 * 16)) CHR ''='' CHR ''='' = Some [a]"
  by (simp only: b64_last_def b64val_b64char b64char_neq sextet_bounds prod.case option.case
        byte_recombine simp_thms if_False if_True b64_pad_zero)

lemma base64_decode_encode: "base64_decode (base64_encode bs) = Some bs"
proof (induction bs rule: base64_encode.induct)
  case 1
  show ?case by simp
next
  case (2 a)
  show ?case by (simp add: b64_last_encode1)
next
  case (3 a b)
  show ?case by (simp add: b64_last_encode2)
next
  case (4 a b c rest)
  show ?case
  proof (cases "base64_encode rest")
    case Nil
    then have "rest = []" by simp
    then show ?thesis by (simp add: b64_last_encode3)
  next
    case (Cons x xs)
    with 4 show ?thesis by (simp add: b64_quad_encode)
  qed
qed

lemma base64_encode_chars:
  "set (base64_encode bs) \<subseteq> set b64_alphabet \<union> {CHR ''=''}"
  by (induction bs rule: base64_encode.induct)
     (simp_all add: b64char_in_alphabet sextet_bounds)

lemma base64_encode_no_colon: "CHR '':'' \<notin> set (base64_encode bs)"
  using base64_encode_chars [of bs] colon_not_b64(1) by auto

lemma length_base64_encode: "length (base64_encode bs) = 4 * ((length bs + 2) div 3)"
  by (induction bs rule: base64_encode.induct) (simp_all, presburger)

lemma ctr_xor_involutive: "ctr_xor ks i (ctr_xor ks i bs) = bs"
  by (induction bs arbitrary: i) (simp_all add: xor.assoc)

lemma length_ctr_xor [simp]: "length (ctr_xor ks i bs) = length bs"
  by (induction bs arbitrary: i) simp_all

lemma gcm_crypt_involutive: "gcm_crypt L key iv (gcm_crypt L key iv bs) = bs"
  by (simp add: gcm_crypt_def ctr_xor_involutive)

lemma length_gcm_crypt [simp]: "length (gcm_crypt L key iv bs) = length bs"
  by (simp add: gcm_crypt_def)

lemma length_word_bytes [simp]: "length (word_bytes n w) = n"
  by (simp add: word_bytes_def)

lemma length_gcm_tag_bytes [simp]: "length (gcm_tag_bytes L key iv ct) = 16"
  by (simp add: gcm_tag_bytes_def)

lemma length_hex_encode [simp]: "length (hex_encode bs) = 2 * length bs"
  by (induction bs) simp_all

lemma length_sha512_bytes [simp]: "length (sha512_bytes L m) = 64"
  by (simp add: sha512_bytes_def)

lemma length_sha256_bytes [simp]: "length (sha256_bytes L m) = 32"
  by (simp add: sha256_bytes_def)

lemma lib_base64_decode_encode [simp]: "lib_base64_decode L (base64_encode bs) = Inr bs"
  by (simp add: lib_base64_decode_def base64_decode_encode)

lemma hexval_hexdigit: "n < 16 \<Longrightarrow> hexval (hexdigit n) = Some n"
proof -
  assume n: "n < 16"
  have d: "distinct ''0123456789abcdef''" by simp
  have "index_of (''0123456789abcdef'' ! n) ''0123456789abcdef'' = Some n"
    using index_of_nth [OF d] n by simp
  then show ?thesis by (simp add: hexval_def hexdigit_def)
qed

lemma hexval_zero: "hexval CHR ''0'' = Some 0"
  by (simp add: hexval_def)

lemma hex4_low: "n < 256 \<Longrightarrow> hex4 CHR ''0'' CHR ''0'' (hexdigit (n div 16)) (hexdigit (n mod 16)) = Some n"
  by (simp add: hex4_def hexval_zero hexval_hexdigit)

lemma parse_unicode_escape_low:
  assumes "n < 32"
  shows "parse_unicode_escape (CHR ''0'' # CHR ''0'' # hexdigit (n div 16) # hexdigit (n mod 16) # tail)
         = Some ([char_of n], tail)"
  using assms by (simp add: hex4_low utf8_of_code_point_def)

lemma parse_string_body_escaped:
  "parse_string_body (json_escape_char c @ tail) =
     (case parse_string_body tail of None \<Rightarrow> None | Some (t, r) \<Rightarrow> Some (c # t, r))"
proof -
  consider (quote) "c = CHR 0x22" | (bs) "c = CHR 0x5C" | (b) "c = CHR 0x08" | (t) "c = CHR 0x09"
    | (n) "c = CHR 0x0A" | (f) "c = CHR 0x0C" | (r) "c = CHR 0x0D"
    | (ctl) "c \<noteq> CHR 0x22" "c \<noteq> CHR 0x5C" "c \<noteq> CHR 0x08" "c \<noteq> CHR 0x09" "c \<noteq> CHR 0x0A"
            "c \<noteq> CHR 0x0C" "c \<noteq> CHR 0x0D" "(of_char c :: nat) < 32"
    | (plain) "c \<noteq> CHR 0x22" "c \<noteq> CHR 0x5C" "\<not> (of_char c :: nat) < 32"
    by blast
  then show ?thesis
  proof cases
    case ctl
    then show ?thesis
      by (simp add: json_escape_char_def parse_unicode_escape_low
            del: parse_unicode_escape.simps split: option.splits)
  next
    case plain
    then have "json_escape_char c = [c]"
      by (auto simp: json_escape_char_def)
    with plain show ?thesis by (simp split: option.splits)
  qed (simp_all add: json_escape_char_def split: option.splits)
qed

lemma parse_string_body_encoded:
  "parse_string_body (concat (map json_escape_char s) @ CHR 0x22 # rest) = Some (s, rest)"
  by (induction s) (simp_all add: parse_string_body_escaped)

lemma json_parse_encode_string: "json_parse (json_encode_string s) = Inr (JString s)"
  using parse_string_body_encoded [of s "[]"]
  by (simp add: json_parse_def json_encode_string_def skip_ws_def is_ws_def)

lemma str_split3:
  assumes "CHR '':'' \<notin> set a" "CHR '':'' \<notin> set b" "CHR '':'' \<notin> set c"
  shows "str_split (a @ '':'' @ b @ '':'' @ c) = [a, b, c]"
  using assms by (simp add: str_split_append str_split_no_colon)

lemma str_split_wire:
  "str_split (base64_encode x @ CHR '':'' # base64_encode y @ CHR '':'' # base64_encode z)
     = [base64_encode x, base64_encode y, base64_encode z]"
  using str_split3 [OF base64_encode_no_colon base64_encode_no_colon base64_encode_no_colon]
  by simp

lemma length_deriveKey [simp]: "length (deriveKey L m) = 32"
  by (simp add: deriveKey_def)

lemma str_split_wire_format:
  "str_split (wire_format ct iv tag) = [base64_encode ct, base64_encode iv, base64_encode tag]"
  by (simp add: wire_format_def str_split_wire)

lemma cipher_text_split:
  "str_split (cipher_text L key iv pt) =
     [base64_encode (gcm_crypt L key iv pt), base64_encode iv,
      base64_encode (gcm_tag_bytes L key iv (gcm_crypt L key iv pt))]"
  by (simp add: cipher_text_def str_split_wire_format)

lemma encrypt_ts_eq:
  assumes "iv \<noteq> []"
  shows "encrypt_ts L iv P W = Inr (cipher_text L (deriveKey L (utf8_encode W)) iv (utf8_encode P))"
  using assms
  by (simp add: encrypt_ts_def node_gcm_encrypt_def node_cipher_params_ok_def and_then_def
        Let_def deriveKey_def cipher_text_def wire_format_def)

lemma dhEncrypt_ts_eq:
  assumes "iv \<noteq> []" "node_hash_update_hex L S = Inr m"
  shows "dhEncrypt_ts L iv P S = Inr (cipher_text L (deriveKey L m) iv (utf8_encode P))"
  using assms
  by (simp add: dhEncrypt_ts_def node_gcm_encrypt_def node_cipher_params_ok_def and_then_def
        Let_def deriveKey_def cipher_text_def wire_format_def)

lemma encrypt_dart_eq:
  "encrypt_dart L iv P W =
     Inr (cipher_text L (deriveKey L (utf8_encode W)) iv (utf8_encode (json_encode_string P)))"
  by (simp add: encrypt_dart_def pc_gcm_encrypt_def pc_key_ok_def and_then_def try_catch_def
        dart_substring0_def Let_def deriveKey_def cipher_text_def wire_format_def)

lemma dhEncrypt_dart_eq:
  assumes "hexToBytes L S = Inr m"
  shows "dhEncrypt_dart L iv P S =
     Inr (cipher_text L (deriveKey L m) iv (utf8_encode (json_encode_string P)))"
  using assms
  by (simp add: dhEncrypt_dart_def pc_gcm_encrypt_def pc_key_ok_def and_then_def try_catch_def
        dart_substring0_def Let_def deriveKey_def cipher_text_def wire_format_def)

text \<open>
  The decrypting functions on a text of three canonical base64 segments whose last
  segment holds 16 bytes.
\<close>

lemma decrypt_ts_wire:
  assumes "iv \<noteq> []" "length tag = 16"
  shows "decrypt_ts L (wire_format ct iv tag) W =
     (if tag = gcm_tag_bytes L (deriveKey L (utf8_encode W)) iv ct
      then and_then (utf8_decode L (gcm_crypt L (deriveKey L (utf8_encode W)) iv ct)) json_parse
      else Inl AuthenticationError)"
  using assms
  by (simp add: decrypt_ts_def str_split_wire_format node_cipher_params_ok_def node_tag_length_ok_def
        node_decipher_final_def and_then_def Let_def deriveKey_def)

lemma dhDecrypt_ts_wire:
  assumes "iv \<noteq> []" "length tag = 16" "node_hash_update_hex L S = Inr m"
  shows "dhDecrypt_ts L (wire_format ct iv tag) S =
     (if tag = gcm_tag_bytes L (deriveKey L m) iv ct
      then and_then (utf8_decode L (gcm_crypt L (deriveKey L m) iv ct)) json_parse
      else Inl AuthenticationError)"
  using assms
  by (simp add: dhDecrypt_ts_def str_split_wire_format node_cipher_params_ok_def node_tag_length_ok_def
        node_decipher_final_def and_then_def Let_def deriveKey_def)

lemma decrypt_dart_wire:
  assumes "length tag = 16"
  shows "decrypt_dart L (wire_format ct iv tag) W =
     try_catch ''Decryption failed''
       (if tag = gcm_tag_bytes L (deriveKey L (utf8_encode W)) iv ct
        then and_then (utf8_decode L (gcm_crypt L (deriveKey L (utf8_encode W)) iv ct)) json_parse
        else Inl AuthenticationError)"
  using assms
  by (simp add: decrypt_dart_def str_split_wire_format pc_gcm_decrypt_def pc_key_ok_def and_then_def
        dart_substring0_def Let_def deriveKey_def)

lemma dhDecrypt_dart_wire:
  assumes "length tag = 16" "hexToBytes L S = Inr m"
  shows "dhDecrypt_dart L (wire_format ct iv tag) S =
     try_catch ''DH decryption failed''
       (if tag = gcm_tag_bytes L (deriveKey L m) iv ct
        then and_then (utf8_decode L (gcm_crypt L (deriveKey L m) iv ct)) json_parse
        else Inl AuthenticationError)"
  using assms
  by (simp add: dhDecrypt_dart_def str_split_wire_format pc_gcm_decrypt_def pc_key_ok_def and_then_def
        dart_substring0_def Let_def deriveKey_def)

text \<open>The decrypting functions on the CipherText of given plaintext bytes.\<close>

lemma decrypt_ts_cipher_text:
  assumes "iv \<noteq> []"
  shows "decrypt_ts L (cipher_text L (deriveKey L (utf8_encode W)) iv pt) W =
           and_then (utf8_decode L pt) json_parse"
  unfolding cipher_text_def using assms
  by (simp add: decrypt_ts_wire gcm_crypt_involutive)

lemma dhDecrypt_ts_cipher_text:
  assumes "iv \<noteq> []" "node_hash_update_hex L S = Inr m"
  shows "dhDecrypt_ts L (cipher_text L (deriveKey L m) iv pt) S =
           and_then (utf8_decode L pt) json_parse"
  unfolding cipher_text_def using assms
  by (simp add: dhDecrypt_ts_wire gcm_crypt_involutive)

lemma decrypt_dart_cipher_text:
  "decrypt_dart L (cipher_text L (deriveKey L (utf8_encode W)) iv pt) W =
     try_catch ''Decryption failed'' (and_then (utf8_decode L pt) json_parse)"
  unfolding cipher_text_def
  by (simp add: decrypt_dart_wire gcm_crypt_involutive)

lemma dhDecrypt_dart_cipher_text:
  assumes "hexToBytes L S = Inr m"
  shows "dhDecrypt_dart L (cipher_text L (deriveKey L m) iv pt) S =
     try_catch ''DH decryption failed'' (and_then (utf8_decode L pt) json_parse)"
  unfolding cipher_text_def using assms
  by (simp add: dhDecrypt_dart_wire gcm_crypt_involutive)

section \<open>Facts about hexadecimal text and big integers\<close>

lemma take_hex_encode: "take (2 * n) (hex_encode bs) = hex_encode (take n bs)"
proof (induction bs arbitrary: n)
  case Nil
  show ?case by simp
next
  case (Cons b bs)
  show ?case
  proof (cases n)
    case 0
    then show ?thesis by simp
  next
    case (Suc k)
    with Cons [of k] show ?thesis by simp
  qed
qed

lemma deriveKey_first_16: "deriveKey L m = utf8_encode (hex_encode (take 16 (sha512_bytes L m)))"
  using take_hex_encode [of 16 "sha512_bytes L m"] by (simp add: deriveKey_def)

lemma hex_value_pair:
  "hexval c1 = Some a \<Longrightarrow> hexval c2 = Some b \<Longrightarrow> hex_value [c1, c2] = 16 * a + b"
  by (simp add: hex_value_def)

lemma parse_pairs_plain:
  assumes "is_hex s" "even (length s)"
  shows "parse_pairs L (hex_pairs s) = Inr (node_hex_decode s)"
  using assms
proof (induction s rule: hex_pairs.induct)
  case (1 c1 c2 rest)
  from "1.prems" obtain a b where ab: "hexval c1 = Some a" "hexval c2 = Some b"
    by (auto simp: is_hex_def)
  from "1.prems" have rest: "is_hex rest" "even (length rest)"
    by (auto simp: is_hex_def)
  have "int_parse16 L [c1, c2] = Some (int (16 * a + b))"
    using ab by (simp add: int_parse16_def is_hex_def hex_value_pair)
  then show ?case
    using ab "1.IH" [OF rest] by (simp add: and_then_def)
next
  case (2 c)
  then show ?case by simp
next
  case 3
  show ?case by simp
qed

lemma hexToBytes_plain:
  assumes "is_hex s" "even (length s)"
  shows "hexToBytes L s = Inr (node_hex_decode s)"
  using assms parse_pairs_plain [OF assms] by (simp add: hexToBytes_def)

lemma node_hash_update_hex_plain:
  assumes "is_hex s" "even (length s)"
  shows "node_hash_update_hex L s = Inr (node_hex_decode s)"
  using assms by (simp add: node_hash_update_hex_def)

lemma is_hex_PRIME: "is_hex PRIME_2048"
  by (simp add: is_hex_def PRIME_2048_def hexval_def)

lemma hex_value_PRIME: "hex_value PRIME_2048 = 0xFFFFFFFFFFFFFFFFC90FDAA22168C234C4C6628B80DC1CD129024E088A67CC74020BBEA63B139B22514A08798E3404DDEF9519B3CD3A431B302B0A6DF25F14374FE1356D6D51C245E485B576625E7EC6F44C42E9A637ED6B0BFF5CB6F406B7EDEE386BFB5A899FA5AE9F24117C4B1FE649286651ECE45B3DC2007CB8A163BF0598DA48361C55D39A69163FA8FD24CF5F83655D23DCA3AD961C62F356208552BB9ED529077096966D670C354E4ABC9804F1746C08CA18217C32905E462E36CE3BE39E772C180E86039B2783A2EC07A28FB5C55DF06F4C52C9DE2BCBF6955817183995497CEA956AE515D2261898FA051015728E5A8AACAA68FFFFFFFFFFFFFFFF"
  by (simp add: hex_value_def PRIME_2048_def hexval_def)

lemma hex_value_snoc:
  "hex_value (s @ [c]) = 16 * hex_value s + (case hexval c of Some d \<Rightarrow> d | None \<Rightarrow> 0)"
  by (simp add: hex_value_def)

lemma is_hex_append [simp]: "is_hex (s @ t) \<longleftrightarrow> is_hex s \<and> is_hex t"
  by (simp add: is_hex_def)

lemma is_hex_hexdigit: "n < 16 \<Longrightarrow> is_hex [hexdigit n]"
  by (simp add: is_hex_def hexval_hexdigit)

lemma to_hex_nonempty [simp]: "to_hex n \<noteq> []"
  by (subst to_hex.simps) simp

lemma is_hex_to_hex [simp]: "is_hex (to_hex n)"
proof (induction n rule: to_hex.induct)
  case (1 n)
  show ?case
  proof (cases "n < 16")
    case True
    then show ?thesis by (subst to_hex.simps) (simp add: is_hex_hexdigit)
  next
    case False
    with 1 show ?thesis by (subst to_hex.simps) (simp add: is_hex_hexdigit)
  qed
qed

lemma hex_value_to_hex [simp]: "hex_value (to_hex n) = n"
proof (induction n rule: to_hex.induct)
  case (1 n)
  show ?case
  proof (cases "n < 16")
    case True
    then show ?thesis
      by (subst to_hex.simps) (simp add: hex_value_def hexval_hexdigit)
  next
    case False
    with 1 show ?thesis
      by (subst to_hex.simps) (simp add: hex_value_snoc hexval_hexdigit)
  qed
qed

lemma bigint_parse16_to_hex [simp]: "bigint_parse16 L (to_hex n) = Some (int n)"
  by (simp add: bigint_parse16_def)

lemma hexToBigInt_bigIntToHex: "0 \<le> v \<Longrightarrow> hexToBigInt L (bigIntToHex v) = Inr v"
  by (simp add: hexToBigInt_def bigIntToHex_def)

lemma nibble_bounds: "unat (b :: byte) div 16 < 16" "unat (b :: byte) mod 16 < 16"
  using unat_byte_less [of b] by simp_all

lemma is_hex_hex_encode [simp]: "is_hex (hex_encode bs)"
  by (induction bs) (simp_all add: is_hex_def hexval_hexdigit nibble_bounds)

lemma even_length_hex_encode [simp]: "even (length (hex_encode bs))"
  by simp

lemma hex_fold_hex_encode:
  "foldl (\<lambda>acc c. 16 * acc + (case hexval c of Some d \<Rightarrow> d | None \<Rightarrow> 0)) a (hex_encode bs)
     = foldl (\<lambda>acc b. 256 * acc + unat b) a bs"
    (is "foldl ?F a (hex_encode bs) = foldl ?G a bs")
proof (induction bs arbitrary: a)
  case Nil
  show ?case by simp
next
  case (Cons b bs)
  have e: "16 * (16 * a + unat b div 16) + unat b mod 16 = 256 * a + unat b"
    by simp
  have "foldl ?F a (hex_encode (b # bs))
          = foldl ?F (16 * (16 * a + unat b div 16) + unat b mod 16) (hex_encode bs)"
    by (simp add: hexval_hexdigit nibble_bounds)
  also have "\<dots> = foldl ?F (256 * a + unat b) (hex_encode bs)"
    by (simp only: e)
  also have "\<dots> = foldl ?G (256 * a + unat b) bs"
    by (rule Cons)
  also have "\<dots> = foldl ?G a (b # bs)"
    by simp
  finally show ?case .
qed

lemma hex_value_hex_encode: "hex_value (hex_encode bs) = be_int bs"
  by (simp add: hex_value_def be_int_def hex_fold_hex_encode)

lemma byte_of_nibbles: "(of_nat (16 * (unat (b :: byte) div 16) + unat b mod 16) :: byte) = b"
proof -
  have "16 * (unat b div 16) + unat b mod 16 = unat b" by simp
  then show ?thesis by (simp only:) simp
qed

lemma node_hex_decode_hex_encode [simp]: "node_hex_decode (hex_encode bs) = bs"
  by (induction bs) (simp_all add: hexval_hexdigit nibble_bounds byte_of_nibbles)

lemma be_int_snoc: "be_int (bs @ [b]) = 256 * be_int bs + unat b"
  by (simp add: be_int_def)

lemma be_int_be_bytes [simp]: "be_int (be_bytes n) = n"
proof (induction n rule: be_bytes.induct)
  case (1 n)
  show ?case
  proof (cases "n = 0")
    case True
    then show ?thesis by (subst be_bytes.simps) (simp add: be_int_def)
  next
    case False
    have "unat (of_nat (n mod 256) :: byte) = n mod 256"
      by (simp add: unat_of_nat)
    with False 1 show ?thesis
      by (subst be_bytes.simps) (simp add: be_int_snoc)
  qed
qed

lemma be_int_less: "be_int bs < 256 ^ length bs"
proof (induction bs rule: rev_induct)
  case Nil
  show ?case by (simp add: be_int_def)
next
  case (snoc b bs)
  have "256 * be_int bs + unat b < 256 * (be_int bs + 1)"
    using unat_byte_less [of b] by simp
  also have "\<dots> \<le> 256 * 256 ^ length bs"
    using snoc by (simp add: Suc_leI del: mult_Suc_right)
  finally show ?case by (simp add: be_int_snoc)
qed

lemma be_int_sha256_less: "be_int (sha256_bytes L m) < 2 ^ 256"
proof -
  have "be_int (sha256_bytes L m) < 256 ^ 32"
    using be_int_less [of "sha256_bytes L m"] by simp
  also have "(256 :: nat) ^ 32 = 2 ^ 256" by simp
  finally show ?thesis .
qed

lemma dh_prime_numeral: "dh_prime = 0xFFFFFFFFFFFFFFFFC90FDAA22168C234C4C6628B80DC1CD129024E088A67CC74020BBEA63B139B22514A08798E3404DDEF9519B3CD3A431B302B0A6DF25F14374FE1356D6D51C245E485B576625E7EC6F44C42E9A637ED6B0BFF5CB6F406B7EDEE386BFB5A899FA5AE9F24117C4B1FE649286651ECE45B3DC2007CB8A163BF0598DA48361C55D39A69163FA8FD24CF5F83655D23DCA3AD961C62F356208552BB9ED529077096966D670C354E4ABC9804F1746C08CA18217C32905E462E36CE3BE39E772C180E86039B2783A2EC07A28FB5C55DF06F4C52C9DE2BCBF6955817183995497CEA956AE515D2261898FA051015728E5A8AACAA68FFFFFFFFFFFFFFFF"
  by (simp only: dh_prime_def hex_value_PRIME)

lemma dh_prime_large: "2 ^ 256 < dh_prime - 1"
  by (simp add: dh_prime_numeral)

lemma dh_prime_pos: "0 < dh_prime"
  by (simp add: dh_prime_numeral)

lemma even_length_PRIME: "even (length PRIME_2048)"
  by (simp add: PRIME_2048_def)

lemma PRIME_nonempty: "PRIME_2048 \<noteq> []"
  by (simp add: PRIME_2048_def)

lemma node_hex_decode_append:
  assumes "is_hex s" "even (length s)"
  shows "node_hex_decode (s @ t) = node_hex_decode s @ node_hex_decode t"
  using assms
proof (induction s rule: node_hex_decode.induct)
  case (1 c1 c2 rest)
  from "1.prems" obtain a b where ab: "hexval c1 = Some a" "hexval c2 = Some b"
    by (auto simp: is_hex_def)
  from "1.prems" have "is_hex rest" "even (length rest)" by (auto simp: is_hex_def)
  with 1 ab show ?case by simp
qed simp_all

lemma byte_fold_node_hex_decode:
  assumes "is_hex s" "even (length s)"
  shows "foldl (\<lambda>acc b. 256 * acc + unat b) a (node_hex_decode s)
        = foldl (\<lambda>acc c. 16 * acc + (case hexval c of Some d \<Rightarrow> d | None \<Rightarrow> 0)) a s"
  using assms
proof (induction s arbitrary: a rule: node_hex_decode.induct)
  case (1 c1 c2 rest)
  from "1.prems" obtain x y where xy: "hexval c1 = Some x" "hexval c2 = Some y"
    by (auto simp: is_hex_def)
  from "1.prems" have r: "is_hex rest" "even (length rest)" by (auto simp: is_hex_def)
  have "x < 16" "y < 16"
    using xy by (auto simp: hexval_def split: option.splits dest!: index_of_Some
                 simp del: index_of.simps)
  then have "16 * x + y < 256" by simp
  moreover have "unat (of_nat (16 * x + y) :: byte) = (16 * x + y) mod 256"
    by (simp only: unat_of_nat) simp
  ultimately have u: "unat (of_nat (16 * x + y) :: byte) = 16 * x + y"
    by simp
  have e: "256 * a + (16 * x + y) = 16 * (16 * a + x) + y" by simp
  show ?case
    using "1.IH" [OF refl xy(1) xy(2) r, of "16 * (16 * a + x) + y"]
    by (simp only: node_hex_decode.simps xy prod.case option.case foldl_Cons u e)
qed simp_all

lemma be_int_node_hex_decode:
  assumes "is_hex s" "even (length s)"
  shows "be_int (node_hex_decode s) = hex_value s"
  by (simp add: be_int_def hex_value_def byte_fold_node_hex_decode [OF assms])

lemma node_dh_prime_eq: "node_dh_prime = dh_prime"
  by (simp add: node_dh_prime_def dh_prime_def be_int_node_hex_decode is_hex_PRIME
        even_length_PRIME)

lemma hexToBigInt_prime: "hexToBigInt L prime2048 = Inr (int dh_prime)"
  by (simp add: hexToBigInt_def bigint_parse16_def prime2048_def is_hex_PRIME PRIME_nonempty
        dh_prime_def)

lemma to_hex_small: "n < 16 \<Longrightarrow> to_hex n = [hexdigit n]"
  by (subst to_hex.simps) simp

lemma to_hex_step: "16 \<le> n \<Longrightarrow> to_hex n = to_hex (n div 16) @ [hexdigit (n mod 16)]"
  by (subst to_hex.simps) simp

lemma to_hex_step2:
  assumes "256 \<le> n"
  shows "to_hex n = to_hex (n div 256) @ [hexdigit (n div 16 mod 16), hexdigit (n mod 16)]"
proof -
  have "16 \<le> n div 16" using assms by simp
  moreover have "n div 16 div 16 = n div 256" by (simp add: div_mult2_eq)
  ultimately show ?thesis
    using assms by (simp add: to_hex_step)
qed

lemma pad_even_props: "even (length (pad_even s))" "is_hex s \<Longrightarrow> is_hex (pad_even s)"
  by (auto simp: pad_even_def is_hex_def hexval_def)

lemma pad_even_append2: "pad_even (s @ [a, b]) = pad_even s @ [a, b]"
  by (simp add: pad_even_def)

lemma byte_of_low_nibbles:
  "(of_nat (16 * (n div 16 mod 16) + n mod 16) :: byte) = of_nat (n mod 256)"
proof -
  have "16 * (n div 16 mod 16) + n mod 16 = n mod 256"
    using mod_mult2_eq [of n 16 16] by simp
  then show ?thesis by (simp only:)
qed

lemma node_hex_decode_hexdigits:
  "a < 16 \<Longrightarrow> b < 16 \<Longrightarrow> node_hex_decode [hexdigit a, hexdigit b] = [of_nat (16 * a + b)]"
  by (simp add: hexval_hexdigit)

lemma node_hex_decode_pad_to_hex:
  "0 < n \<Longrightarrow> node_hex_decode (pad_even (to_hex n)) = be_bytes n"
proof (induction n rule: less_induct)
  case (less n)
  consider (a) "n < 16" | (b) "16 \<le> n" "n < 256" | (c) "256 \<le> n" by linarith
  then show ?case
  proof cases
    case a
    have "node_hex_decode [CHR ''0'', hexdigit n] = [of_nat n]"
      using a by (simp add: hexval_hexdigit hexval_zero)
    moreover have "be_bytes n = [of_nat n]"
      using a less.prems by (simp add: be_bytes.simps [of n] be_bytes.simps [of 0])
    ultimately show ?thesis using a by (simp add: to_hex_small pad_even_def)
  next
    case b
    then have t: "to_hex n = [hexdigit (n div 16), hexdigit (n mod 16)]"
      by (simp add: to_hex_step to_hex_small)
    have "n div 256 = 0" using b by simp
    then have "be_bytes n = [of_nat n]"
      using b by (simp add: be_bytes.simps [of n] be_bytes.simps [of 0])
    moreover have "node_hex_decode [hexdigit (n div 16), hexdigit (n mod 16)]
                     = [of_nat (16 * (n div 16) + n mod 16)]"
      by (rule node_hex_decode_hexdigits) (use b in simp_all)
    ultimately show ?thesis by (simp add: t pad_even_def)
  next
    case c
    then have pos: "0 < n div 256" and lt: "n div 256 < n" by simp_all
    have hx: "is_hex (pad_even (to_hex (n div 256)))" "even (length (pad_even (to_hex (n div 256))))"
      by (simp_all add: pad_even_props)
    have "node_hex_decode (pad_even (to_hex n))
            = node_hex_decode (pad_even (to_hex (n div 256))) @
              node_hex_decode [hexdigit (n div 16 mod 16), hexdigit (n mod 16)]"
      by (simp only: to_hex_step2 [OF c] pad_even_append2 node_hex_decode_append [OF hx])
    also have "\<dots> = be_bytes (n div 256) @ [of_nat (16 * (n div 16 mod 16) + n mod 16)]"
      by (simp only: less.IH [OF lt pos] node_hex_decode_hexdigits [of "n div 16 mod 16" "n mod 16"]
            mod_less_divisor zero_less_numeral)
    also have "\<dots> = be_bytes (n div 256) @ [of_nat (n mod 256)]"
      by (simp only: byte_of_low_nibbles)
    also have "\<dots> = be_bytes n"
      using c by (simp add: be_bytes.simps [of n])
    finally show ?thesis .
  qed
qed

lemma hexToBytes_hex:
  assumes "is_hex s"
  shows "hexToBytes L s = Inr (node_hex_decode (pad_even s))"
proof -
  have "hexToBytes L s = parse_pairs L (hex_pairs (pad_even s))"
    by (simp add: hexToBytes_def pad_even_def)
  then show ?thesis
    using parse_pairs_plain [OF pad_even_props(2) [OF assms] pad_even_props(1)] by simp
qed

lemma hexToBytes_to_hex: "hexToBytes L (to_hex n) = Inr (minimal_bytes n)"
proof (cases "n = 0")
  case True
  have "to_hex 0 = ''0''" by (simp add: to_hex_small hexdigit_def)
  then show ?thesis
    using True
    by (simp add: hexToBytes_hex minimal_bytes_def pad_even_def hexval_zero is_hex_def)
next
  case False
  then show ?thesis
    by (simp add: hexToBytes_hex minimal_bytes_def node_hex_decode_pad_to_hex)
qed

lemma hexToBytes_bigIntToHex:
  "0 \<le> v \<Longrightarrow> hexToBytes L (bigIntToHex v) = Inr (minimal_bytes (nat v))"
  by (simp add: bigIntToHex_def hexToBytes_to_hex)

section \<open>Facts about the cipher functions\<close>

lemma flip_bit_at_neq:
  assumes "i < 8 * length bs"
  shows "flip_bit_at i bs \<noteq> bs"
proof -
  have idx: "i div 8 < length bs" using assms by auto
  have "bit (push_bit (i mod 8) 1 :: byte) (i mod 8)"
    by (simp add: bit_push_bit_iff bit_exp_iff)
  then have nz: "(push_bit (i mod 8) 1 :: byte) \<noteq> 0"
    by force
  have "(bs ! (i div 8)) XOR push_bit (i mod 8) 1 \<noteq> bs ! (i div 8)"
  proof
    assume eq: "(bs ! (i div 8)) XOR push_bit (i mod 8) 1 = bs ! (i div 8)"
    have "(push_bit (i mod 8) 1 :: byte)
            = (bs ! (i div 8)) XOR ((bs ! (i div 8)) XOR push_bit (i mod 8) 1)"
      by (simp add: xor.assoc [symmetric])
    also have "\<dots> = 0" by (simp only: eq xor_self_eq)
    finally show False using nz by simp
  qed
  then have "flip_bit_at i bs ! (i div 8) \<noteq> bs ! (i div 8)"
    using idx by (simp add: flip_bit_at_def)
  then show ?thesis by auto
qed

lemma length_flip_bit_at [simp]: "length (flip_bit_at i bs) = length bs"
  by (simp add: flip_bit_at_def)

lemma flip_tag_bit_cipher_text:
  "flip_tag_bit i (cipher_text L key iv pt) =
     wire_format (gcm_crypt L key iv pt) iv
       (flip_bit_at i (gcm_tag_bytes L key iv (gcm_crypt L key iv pt)))"
  by (simp add: flip_tag_bit_def cipher_text_split base64_decode_encode wire_format_def)

lemma iv16_nonempty: "length iv = 16 \<Longrightarrow> iv \<noteq> []"
  by auto

lemma dhEncrypt_ts_InrD:
  assumes "dhEncrypt_ts L iv P S = Inr c" "iv \<noteq> []"
  shows "\<exists>m. node_hash_update_hex L S = Inr m
             \<and> c = cipher_text L (deriveKey L m) iv (utf8_encode P)"
proof (cases "node_hash_update_hex L S")
  case (Inl e)
  with assms show ?thesis by (simp add: dhEncrypt_ts_def and_then_def)
next
  case (Inr m)
  with assms dhEncrypt_ts_eq [of iv L S m P] show ?thesis by simp
qed

lemma dhEncrypt_dart_InrD:
  assumes "dhEncrypt_dart L iv P S = Inr c"
  shows "\<exists>m. hexToBytes L S = Inr m
             \<and> c = cipher_text L (deriveKey L m) iv (utf8_encode (json_encode_string P))"
proof (cases "hexToBytes L S")
  case (Inl e)
  with assms show ?thesis by (simp add: dhEncrypt_dart_def and_then_def try_catch_def)
next
  case (Inr m)
  with assms dhEncrypt_dart_eq [of L S m iv P] show ?thesis by simp
qed

lemma decrypt_ts_flipped:
  assumes "iv \<noteq> []" "i < 128"
  shows "decrypt_ts L (flip_tag_bit i (cipher_text L (deriveKey L (utf8_encode W)) iv pt)) W
           = Inl AuthenticationError"
  using assms flip_bit_at_neq [of i "gcm_tag_bytes L (deriveKey L (utf8_encode W)) iv
                                      (gcm_crypt L (deriveKey L (utf8_encode W)) iv pt)"]
  by (simp add: flip_tag_bit_cipher_text decrypt_ts_wire)

lemma dhDecrypt_ts_flipped:
  assumes "iv \<noteq> []" "i < 128" "node_hash_update_hex L S = Inr m"
  shows "dhDecrypt_ts L (flip_tag_bit i (cipher_text L (deriveKey L m) iv pt)) S
           = Inl AuthenticationError"
  using assms flip_bit_at_neq [of i "gcm_tag_bytes L (deriveKey L m) iv
                                      (gcm_crypt L (deriveKey L m) iv pt)"]
  by (simp add: flip_tag_bit_cipher_text dhDecrypt_ts_wire)

lemma decrypt_dart_flipped:
  assumes "i < 128"
  shows "decrypt_dart L (flip_tag_bit i (cipher_text L (deriveKey L (utf8_encode W)) iv pt)) W
           = Inl (Wrapped ''Decryption failed'' AuthenticationError)"
  using assms flip_bit_at_neq [of i "gcm_tag_bytes L (deriveKey L (utf8_encode W)) iv
                                      (gcm_crypt L (deriveKey L (utf8_encode W)) iv pt)"]
  by (simp add: flip_tag_bit_cipher_text decrypt_dart_wire try_catch_def)

lemma dhDecrypt_dart_flipped:
  assumes "i < 128" "hexToBytes L S = Inr m"
  shows "dhDecrypt_dart L (flip_tag_bit i (cipher_text L (deriveKey L m) iv pt)) S
           = Inl (Wrapped ''DH decryption failed'' AuthenticationError)"
  using assms flip_bit_at_neq [of i "gcm_tag_bytes L (deriveKey L m) iv
                                      (gcm_crypt L (deriveKey L m) iv pt)"]
  by (simp add: flip_tag_bit_cipher_text dhDecrypt_dart_wire try_catch_def)

lemma count_colon_wire_format: "count_list (wire_format ct iv tag) CHR '':'' = 2"
  using length_str_split [of "wire_format ct iv tag"] by (simp add: str_split_wire_format)

lemma cipher_text_shape_cipher_text:
  assumes "length iv = 16"
  shows "cipher_text_shape (cipher_text L key iv pt)"
proof -
  have "iv \<noteq> []" using assms by auto
  moreover have "gcm_tag_bytes L key iv (gcm_crypt L key iv pt) \<noteq> []"
    by (rule iv16_nonempty) simp
  ultimately show ?thesis
    using assms
    by (simp add: cipher_text_shape_def cipher_text_def count_colon_wire_format
          str_split_wire_format base64_decode_encode)
qed

lemma first_segment_cipher_text:
  "first_segment (cipher_text L key iv pt) = base64_encode (gcm_crypt L key iv pt)"
  by (simp add: first_segment_def cipher_text_split)

lemma first_segment_empty_iff: "first_segment (cipher_text L key iv pt) = [] \<longleftrightarrow> pt = []"
proof -
  have "gcm_crypt L key iv pt = [] \<longleftrightarrow> pt = []"
    using length_gcm_crypt [of L key iv pt] by (metis length_0_conv)
  then show ?thesis by (simp add: first_segment_cipher_text)
qed

lemma json_encode_string_nonempty: "utf8_encode (json_encode_string P) \<noteq> []"
  by (simp add: json_encode_string_def utf8_encode_def)

text \<open>The executable library on the inputs of the examples below.\<close>

lemma demo_utf8 [simp]: "utf8_decode demo_lib (utf8_encode s) = Inr s"
  by (simp add: demo_lib_def)

lemma demo_hex_00ff:
  "node_hash_update_hex demo_lib ''00ff'' = Inr [0, 255]"
  "hexToBytes demo_lib ''00ff'' = Inr [0, 255]"
  by (simp_all add: node_hash_update_hex_def hexToBytes_def is_hex_def hexval_def
        int_parse16_def hex_value_def and_then_def)

lemma json_parse_hello: "json_parse ''Hello World!'' = Inl JsonSyntaxError"
  by code_simp

section \<open>Facts about the key agreement\<close>

lemma sample_private_key_range:
  assumes a: "sample_private_key L p rnd k = Some r"
  shows "\<forall>x. r = Inr x \<longrightarrow> 1 < x \<and> x < p"
proof (rule sample_private_key.raw_induct
    [where P = "\<lambda>L p rnd k r. \<forall>x. r = Inr x \<longrightarrow> 1 < x \<and> x < p", OF _ a])
  fix sample :: "lib \<Rightarrow> int \<Rightarrow> (nat \<Rightarrow> byte) \<Rightarrow> nat \<Rightarrow> (error + int) option"
  fix L' p' rnd' k' r'
  assume IH: "\<And>L p rnd k y. sample L p rnd k = Some y
                \<Longrightarrow> \<forall>x. y = Inr x \<longrightarrow> 1 < x \<and> x < p"
    and body: "(case generateRandomBigInt L' (map rnd' [k' * 256..<k' * 256 + 256]) of
                  Inl e \<Rightarrow> Some (Inl e)
                | Inr privKey \<Rightarrow>
                    if p' \<le> privKey \<or> privKey \<le> 1 then sample L' p' rnd' (Suc k')
                    else Some (Inr privKey)) = Some r'"
  show "\<forall>x. r' = Inr x \<longrightarrow> 1 < x \<and> x < p'"
  proof (cases "generateRandomBigInt L' (map rnd' [k' * 256..<k' * 256 + 256])")
    case (Inl e)
    with body show ?thesis by auto
  next
    case (Inr v)
    show ?thesis
    proof (cases "p' \<le> v \<or> v \<le> 1")
      case True
      with body Inr have "sample L' p' rnd' (Suc k') = Some r'" by auto
      then show ?thesis by (rule IH)
    next
      case False
      with body Inr show ?thesis by auto
    qed
  qed
qed

lemma sample_private_key_first:
  assumes "generateRandomBigInt L (map rnd [k * 256..<k * 256 + 256]) = Inr v" "1 < v" "v < p"
  shows "sample_private_key L p rnd k = Some (Inr v)"
  using assms by (subst sample_private_key.simps) simp

lemma hex_encode_Nil_iff [simp]: "hex_encode bs = [] \<longleftrightarrow> bs = []"
  by (cases bs) simp_all

lemma sha256_bytes_nonempty [simp]: "sha256_bytes L m \<noteq> []"
proof
  assume "sha256_bytes L m = []"
  then have "length (sha256_bytes L m) = 0" by simp
  then show False by simp
qed

lemma generateRandomBigInt_eq:
  "bs \<noteq> [] \<Longrightarrow> generateRandomBigInt L bs = Inr (int (be_int bs))"
  by (simp add: generateRandomBigInt_def hexToBigInt_def bigint_parse16_def hex_value_hex_encode)

lemma modPow_ok: "0 \<le> e \<Longrightarrow> 0 < m \<Longrightarrow> modPow b e m = Inr (b ^ nat e mod m)"
  by (simp add: modPow_def)

lemma generateDHKeyPair_dart_plain:
  assumes "sample_private_key L (int dh_prime) rnd 0 = Some (Inr x)"
  shows "generateDHKeyPair_dart L rnd now None
           = Some (Inr \<lparr>privateKey = bigIntToHex x,
                          publicKey = bigIntToHex (2 ^ nat x mod int dh_prime)\<rparr>)"
proof -
  from sample_private_key_range [OF assms] have x: "1 < x" by blast
  then show ?thesis
    using assms dh_prime_pos
    by (simp add: generateDHKeyPair_dart_def hexToBigInt_prime modPow_ok generator_def
          and_then_def try_catch_def)
qed

lemma int_enhancedPrivateKey_spec:
  "int (enhancedPrivateKey_spec L bs w now)
     = int (be_int (sha256_bytes L (bs @ sha256_bytes L (utf8_encode (w @ show_int now)))))
         mod (int dh_prime - 1) + 1"
  using dh_prime_pos by (simp add: enhancedPrivateKey_spec_def of_nat_mod)

lemma generateDHKeyPair_dart_enhanced:
  assumes "sample_private_key L (int dh_prime) rnd 0 = Some (Inr x)"
  shows "generateDHKeyPair_dart L rnd now (Some w)
           = Some (Inr \<lparr>privateKey =
                            bigIntToHex (int (enhancedPrivateKey_spec L (minimal_bytes (nat x)) w now)),
                          publicKey =
                            bigIntToHex (2 ^ enhancedPrivateKey_spec L (minimal_bytes (nat x)) w now
                                           mod int dh_prime)\<rparr>)"
proof -
  from sample_private_key_range [OF assms(1)] have x: "1 < x" by blast
  have h: "hexToBigInt L (hex_encode (sha256_bytes L
                 (minimal_bytes (nat x) @ sha256_bytes L (utf8_encode (w @ show_int now)))))
             = Inr (int (be_int (sha256_bytes L
                 (minimal_bytes (nat x) @ sha256_bytes L (utf8_encode (w @ show_int now))))))"
    by (simp add: hexToBigInt_def bigint_parse16_def hex_value_hex_encode)
  have v: "0 \<le> int (enhancedPrivateKey_spec L (minimal_bytes (nat x)) w now)" by simp
  show ?thesis
    using assms(1) x dh_prime_pos v
    by (simp add: generateDHKeyPair_dart_def hexToBigInt_prime modPow_ok generator_def
          and_then_def try_catch_def hexToBytes_bigIntToHex dart_substring0_def h Let_def
          int_enhancedPrivateKey_spec [symmetric])
qed

lemma computeSharedSecret_dart_eq:
  assumes "hexToBigInt L a = Inr x" "0 \<le> x" "hexToBigInt L b = Inr y"
  shows "computeSharedSecret_dart L a b pw
           = Inr (shared_secret_hash L (minimal_bytes (nat (y ^ nat x mod int dh_prime))) pw)"
proof -
  have "0 \<le> y ^ nat x mod int dh_prime"
    using dh_prime_pos by simp
  then show ?thesis
    using assms dh_prime_pos
    by (simp add: computeSharedSecret_dart_def hexToBigInt_prime modPow_ok and_then_def
          try_catch_def hexToBytes_bigIntToHex shared_secret_hash_def split: option.splits)
qed

lemma generateDHKeyPair_dart_InrD:
  assumes "generateDHKeyPair_dart L rnd now pw = Some (Inr kp)"
  shows "\<exists>a. 0 \<le> a \<and> privateKey kp = bigIntToHex a
              \<and> publicKey kp = bigIntToHex (2 ^ nat a mod int dh_prime)"
proof (cases "sample_private_key L (int dh_prime) rnd 0")
  case None
  with assms show ?thesis
    by (simp add: generateDHKeyPair_dart_def hexToBigInt_prime)
next
  case (Some r)
  show ?thesis
  proof (cases r)
    case (Inl e)
    with Some assms show ?thesis
      by (simp add: generateDHKeyPair_dart_def hexToBigInt_prime try_catch_def)
  next
    case (Inr x)
    with Some have s: "sample_private_key L (int dh_prime) rnd 0 = Some (Inr x)" by simp
    from sample_private_key_range [OF s] have x: "0 \<le> x" by auto
    show ?thesis
    proof (cases pw)
      case None
      with assms generateDHKeyPair_dart_plain [OF s, of now] x show ?thesis
        by auto
    next
      case (Some w)
      with assms generateDHKeyPair_dart_enhanced [OF s, of now w]
      have "kp = \<lparr>privateKey =
                     bigIntToHex (int (enhancedPrivateKey_spec L (minimal_bytes (nat x)) w now)),
                   publicKey =
                     bigIntToHex (2 ^ enhancedPrivateKey_spec L (minimal_bytes (nat x)) w now
                                    mod int dh_prime)\<rparr>"
        by simp
      then show ?thesis
        by (intro exI [of _ "int (enhancedPrivateKey_spec L (minimal_bytes (nat x)) w now)"]) simp
    qed
  qed
qed

lemma dh_symmetry_int:
  "((2 :: int) ^ b mod p) ^ a mod p = (2 ^ a mod p) ^ b mod p"
proof -
  have "((2 :: int) ^ b mod p) ^ a mod p = (2 ^ b) ^ a mod p" by (simp add: power_mod)
  also have "\<dots> = (2 ^ a) ^ b mod p" by (simp add: power_mult [symmetric] mult.commute)
  also have "\<dots> = (2 ^ a mod p) ^ b mod p" by (simp add: power_mod)
  finally show ?thesis .
qed

lemma dh_symmetry_nat:
  "((2 :: nat) ^ b mod p) ^ a mod p = (2 ^ a mod p) ^ b mod p"
proof -
  have "((2 :: nat) ^ b mod p) ^ a mod p = (2 ^ b) ^ a mod p" by (simp add: power_mod)
  also have "\<dots> = (2 ^ a) ^ b mod p" by (simp add: power_mult [symmetric] mult.commute)
  also have "\<dots> = (2 ^ a mod p) ^ b mod p" by (simp add: power_mod)
  finally show ?thesis .
qed

lemma generateDHKeyPair_ts_plain:
  "truthy pw = None \<Longrightarrow>
   generateDHKeyPair_ts L x now pw
     = \<lparr>privateKey = hex_encode (be_bytes x),
        publicKey = hex_encode (be_bytes (2 ^ x mod dh_prime))\<rparr>"
  by (simp add: generateDHKeyPair_ts_def node_dh_public_def GENERATOR_def node_dh_prime_eq Let_def)

lemma generateDHKeyPair_ts_enhanced:
  "truthy pw = Some w \<Longrightarrow>
   generateDHKeyPair_ts L x now pw
     = \<lparr>privateKey =
          hex_encode (sha256_bytes L (be_bytes x @ sha256_bytes L (utf8_encode (w @ show_int now)))),
        publicKey =
          hex_encode (be_bytes
            (2 ^ be_int (sha256_bytes L
                           (be_bytes x @ sha256_bytes L (utf8_encode (w @ show_int now))))
               mod dh_prime))\<rparr>"
  by (simp add: generateDHKeyPair_ts_def node_dh_public_def GENERATOR_def node_dh_prime_eq Let_def)

lemma generateDHKeyPair_ts_shape:
  "\<exists>pb. privateKey (generateDHKeyPair_ts L x now pw) = hex_encode pb
       \<and> publicKey (generateDHKeyPair_ts L x now pw)
           = hex_encode (be_bytes (2 ^ be_int pb mod dh_prime))"
proof (cases "truthy pw")
  case None
  show ?thesis
    by (rule exI [of _ "be_bytes x"]) (simp add: generateDHKeyPair_ts_plain [OF None])
next
  case (Some w)
  show ?thesis
    by (rule exI [of _ "sha256_bytes L (be_bytes x @ sha256_bytes L (utf8_encode (w @ show_int now)))"])
       (simp add: generateDHKeyPair_ts_enhanced [OF Some])
qed

lemma computeSharedSecret_ts_eq:
  "computeSharedSecret_ts L (hex_encode pa) (hex_encode (be_bytes B)) pw =
     (if dh_check_pub_key B
      then Inr (shared_secret_hash L (node_dh_secret (B ^ be_int pa mod dh_prime)) (truthy pw))
      else Inl InvalidKey)"
  by (simp add: computeSharedSecret_ts_def node_dh_computeSecret_def node_dh_prime_eq and_then_def
        shared_secret_hash_def split: option.splits)

lemma be_int_replicate_zero: "be_int (replicate n 0 @ bs) = be_int bs"
  by (induction n) (simp_all add: be_int_def)

lemma demo_random_block: "map (demo_random v) [0 * 256..<0 * 256 + 256] = replicate 255 0 @ [v]"
proof -
  have "[0..<256] = [0..<255] @ [255 :: nat]"
    using upt_Suc_append [of 0 255] by simp
  moreover have "map (demo_random v) [0..<255] = replicate 255 0"
  proof -
    have "map (demo_random v) [0..<255] = map (\<lambda>_. 0) [0..<255]"
      by (rule map_cong) (auto simp: demo_random_def)
    also have "\<dots> = replicate 255 0"
      by (simp add: map_replicate_const)
    finally show ?thesis .
  qed
  ultimately show ?thesis by (simp add: demo_random_def)
qed

lemma demo_sample:
  assumes "1 < unat v"
  shows "sample_private_key demo_lib (int dh_prime) (demo_random v) 0 = Some (Inr (int (unat v)))"
proof (rule sample_private_key_first)
  show "generateRandomBigInt demo_lib (map (demo_random v) [0 * 256..<0 * 256 + 256])
          = Inr (int (unat v))"
  proof -
    have "generateRandomBigInt demo_lib (replicate 255 0 @ [v])
            = Inr (int (be_int (replicate 255 0 @ [v])))"
      by (rule generateRandomBigInt_eq) simp
    moreover have "be_int (replicate 255 0 @ [v]) = be_int [v]"
      by (rule be_int_replicate_zero)
    moreover have "be_int [v] = unat v"
      by (simp add: be_int_def)
    ultimately show ?thesis
      by (simp only: demo_random_block)
  qed
  show "1 < int (unat v)" using assms by linarith
  have "unat v < 256" by (rule unat_byte_less)
  moreover have "256 < dh_prime" by (simp add: dh_prime_numeral)
  ultimately show "int (unat v) < int dh_prime" by linarith
qed

lemma demo_keypair_dart_5:
  "generateDHKeyPair_dart demo_lib (demo_random 5) 0 None
     = Some (Inr \<lparr>privateKey = ''5'', publicKey = ''20''\<rparr>)"
proof -
  have s: "sample_private_key demo_lib (int dh_prime) (demo_random 5) 0 = Some (Inr 5)"
    using demo_sample [of 5] by simp
  have "(2 :: int) ^ 5 mod int dh_prime = 32" by (simp add: dh_prime_numeral)
  then show ?thesis
    using generateDHKeyPair_dart_plain [OF s, of 0]
    by (simp add: bigIntToHex_def to_hex_small to_hex_step hexdigit_def)
qed

lemma demo_keypair_dart_7:
  "generateDHKeyPair_dart demo_lib (demo_random 7) 0 None
     = Some (Inr \<lparr>privateKey = ''7'', publicKey = ''80''\<rparr>)"
proof -
  have s: "sample_private_key demo_lib (int dh_prime) (demo_random 7) 0 = Some (Inr 7)"
    using demo_sample [of 7] by simp
  have "(2 :: int) ^ 7 mod int dh_prime = 128" by (simp add: dh_prime_numeral)
  then show ?thesis
    using generateDHKeyPair_dart_plain [OF s, of 0]
    by (simp add: bigIntToHex_def to_hex_small to_hex_step hexdigit_def)
qed

lemma be_bytes_small: "0 < n \<Longrightarrow> n < 256 \<Longrightarrow> be_bytes n = [of_nat n]"
  by (simp add: be_bytes.simps [of n] be_bytes.simps [of 0])

lemma demo_keypair_ts_5:
  "generateDHKeyPair_ts demo_lib 5 0 None = \<lparr>privateKey = ''05'', publicKey = ''20''\<rparr>"
proof -
  have "(2 :: nat) ^ 5 mod dh_prime = 32" by (simp add: dh_prime_numeral)
  then show ?thesis
    by (simp add: generateDHKeyPair_ts_plain truthy_def be_bytes_small hexdigit_def)
qed

lemma demo_keypair_ts_7:
  "generateDHKeyPair_ts demo_lib 7 0 None = \<lparr>privateKey = ''07'', publicKey = ''80''\<rparr>"
proof -
  have "(2 :: nat) ^ 7 mod dh_prime = 128" by (simp add: dh_prime_numeral)
  then show ?thesis
    by (simp add: generateDHKeyPair_ts_plain truthy_def be_bytes_small hexdigit_def)
qed

lemma demo_check_pub:
  "dh_check_pub_key (be_int (node_hex_decode ''20''))"
  "dh_check_pub_key (be_int (node_hex_decode ''80''))"
  by (simp_all add: dh_check_pub_key_def node_dh_prime_eq dh_prime_numeral hexval_def be_int_def)

lemma hex_encode_replicate_zero: "hex_encode (replicate n 0) = replicate (2 * n) CHR ''0''"
  by (induction n) (simp_all add: hexdigit_def)

lemma parse_pairs_hex_encode_prefix:
  assumes "parse_pairs L (hex_pairs t) = Inl DecodeError"
  shows "parse_pairs L (hex_pairs (hex_encode bs @ t)) = Inl DecodeError"
  using assms
  by (induction bs) (simp_all add: and_then_def split: option.splits)

lemma validatePublicKey_ts_iff:
  "validatePublicKey_ts s
     \<longleftrightarrow> 100 < length (node_hex_decode s) \<and> length (node_hex_decode s) < 1000"
  by (simp add: validatePublicKey_ts_def Let_def)

lemma length_node_hex_decode_hex:
  assumes "is_hex s"
  shows "length (node_hex_decode s) = length s div 2"
  using assms
  by (induction s rule: node_hex_decode.induct) (auto simp: is_hex_def split: option.splits)

lemma validatePublicKey_ts_hex:
  assumes "is_hex s"
  shows "validatePublicKey_ts s \<longleftrightarrow> 100 < length s div 2 \<and> length s div 2 < 1000"
  using assms by (simp add: validatePublicKey_ts_iff length_node_hex_decode_hex)

lemma validatePublicKey_dart_iff:
  "validatePublicKey_dart L s
     \<longleftrightarrow> (\<exists>bs. hexToBytes L s = Inr bs \<and> 100 < length bs \<and> length bs < 1000)"
  by (simp add: validatePublicKey_dart_def split: sum.splits)

lemma validatePublicKey_dart_hex:
  assumes "is_hex s"
  shows "validatePublicKey_dart L s
           \<longleftrightarrow> 100 < (length s + 1) div 2 \<and> (length s + 1) div 2 < 1000"
proof -
  have "is_hex (pad_even s)" using assms by (simp add: pad_even_def is_hex_def hexval_def)
  then have "length (node_hex_decode (pad_even s)) = (length s + 1) div 2"
    by (auto simp: length_node_hex_decode_hex pad_even_def)
  then show ?thesis
    using assms by (simp add: validatePublicKey_dart_def hexToBytes_hex)
qed

lemma validatePublicKey_empty:
  "\<not> validatePublicKey_ts []" "\<not> validatePublicKey_dart L []"
  by (simp_all add: validatePublicKey_ts_def validatePublicKey_dart_def hexToBytes_def)

lemma length_prime_bytes: "length (node_hex_decode PRIME_2048) = 256"
  by (simp add: PRIME_2048_def hexval_def)

lemma computeSharedSecret_ts_cases:
  "computeSharedSecret_ts L privKey otherPublicKey pw =
     (if 1 < be_int (node_hex_decode otherPublicKey)
         \<and> be_int (node_hex_decode otherPublicKey) + 1 < dh_prime
      then Inr (shared_secret_hash L
                  (node_dh_secret (be_int (node_hex_decode otherPublicKey)
                                     ^ be_int (node_hex_decode privKey) mod dh_prime))
                  (truthy pw))
      else Inl InvalidKey)"
  by (simp add: computeSharedSecret_ts_def node_dh_computeSecret_def dh_check_pub_key_def
        node_dh_prime_eq and_then_def shared_secret_hash_def split: option.splits)

lemma node_dh_secret_cases:
  "node_dh_secret z = (if z \<le> 1 \<or> z = dh_prime - 1 then [] else pad_left 256 (be_bytes z))"
  by (simp add: node_dh_secret_def node_dh_prime_eq length_prime_bytes)

text \<open>
  A private key text of one digit decodes to the empty buffer, the private key 0: the
  shared value is 1, which OpenSSL refuses, and the hash is that of the empty buffer.
\<close>

lemma computeSharedSecret_ts_private_key_zero:
  assumes "1 < be_int (node_hex_decode otherPublicKey)"
    and "be_int (node_hex_decode otherPublicKey) + 1 < dh_prime"
  shows "computeSharedSecret_ts L ''5'' otherPublicKey None
           = Inr (hex_encode (sha256_bytes L []))"
  using assms
  by (simp add: computeSharedSecret_ts_cases node_dh_secret_cases be_int_def
        shared_secret_hash_def truthy_def)





lemma enhancedPrivateKey_spec_Suc:
  "enhancedPrivateKey_spec L bs w now
     = be_int (sha256_bytes L (bs @ sha256_bytes L (utf8_encode (w @ show_int now)))) + 1"
proof -
  have "be_int (sha256_bytes L (bs @ sha256_bytes L (utf8_encode (w @ show_int now))))
          < dh_prime - 1"
    using be_int_sha256_less [of L "bs @ sha256_bytes L (utf8_encode (w @ show_int now))"]
      dh_prime_large
    by linarith
  then show ?thesis by (simp add: enhancedPrivateKey_spec_def)
qed

lemma sample_private_key_step:
  "sample_private_key L p rnd k =
     (let v = int (be_int (map rnd [k * 256 ..< k * 256 + 256]))
      in if v \<ge> p \<or> v \<le> 1 then sample_private_key L p rnd (Suc k) else Some (Inr v))"
proof -
  have "map rnd [k * 256 ..< k * 256 + 256] \<noteq> []" by simp
  then have "generateRandomBigInt L (map rnd [k * 256 ..< k * 256 + 256])
               = Inr (int (be_int (map rnd [k * 256 ..< k * 256 + 256])))"
    by (rule generateRandomBigInt_eq)
  then show ?thesis
    by (subst sample_private_key.simps) (simp add: Let_def)
qed

lemma sample_private_key_returns:
  assumes "1 < int (be_int (map rnd [k * 256 ..< k * 256 + 256]))"
    and "int (be_int (map rnd [k * 256 ..< k * 256 + 256])) < p"
  shows "\<exists>v. sample_private_key L p rnd 0 = Some (Inr v)"
proof -
  have "j \<le> k \<Longrightarrow> \<exists>v. sample_private_key L p rnd (k - j) = Some (Inr v)" for j
  proof (induction j)
    case 0
    show ?case using assms by (subst sample_private_key_step) (simp add: Let_def)
  next
    case (Suc j)
    then have "Suc (k - Suc j) = k - j" by simp
    with Suc show ?case
      by (subst sample_private_key_step) (simp add: Let_def)
  qed
  from this [of k] show ?thesis by simp
qed

lemma generateDHKeyPair_dart_returns:
  assumes "1 < int (be_int (map rnd [k * 256 ..< k * 256 + 256]))"
    and "int (be_int (map rnd [k * 256 ..< k * 256 + 256])) < int dh_prime"
  shows "\<exists>kp. generateDHKeyPair_dart L rnd now pw = Some (Inr kp)"
proof -
  from sample_private_key_returns [OF assms]
  obtain v where "sample_private_key L (int dh_prime) rnd 0 = Some (Inr v)" by blast
  then show ?thesis
    by (cases pw) (simp_all add: generateDHKeyPair_dart_plain generateDHKeyPair_dart_enhanced)
qed

section \<open>Malformed ciphertext\<close>

text \<open>
  C10. An input whose split on \<open>:\<close> does not give exactly three parts is refused with the
  format error by all four decrypting functions: the two TypeScript functions throw
  \<^verbatim>\<open>Error('Invalid encrypted text format')\<close>, the two Dart functions throw it wrapped in
  their own exception; none returns a value. The text \<^verbatim>\<open>invalid-format\<close> is such an input.
\<close>

theorem decrypt_format_error:
  assumes "length (str_split encryptedText) \<noteq> 3"
  shows "decrypt_ts L encryptedText password = Inl FormatError
       \<and> dhDecrypt_ts L encryptedText sharedSecret = Inl FormatError
       \<and> decrypt_dart L encryptedText password = Inl (Wrapped ''Decryption failed'' FormatError)
       \<and> dhDecrypt_dart L encryptedText sharedSecret
           = Inl (Wrapped ''DH decryption failed'' FormatError)"
  using assms
  by (simp add: decrypt_ts_def dhDecrypt_ts_def decrypt_dart_def dhDecrypt_dart_def
        try_catch_def Let_def)

theorem decrypt_format_error_witness:
  "length (str_split ''invalid-format'') \<noteq> 3
   \<and> decrypt_ts demo_lib ''invalid-format'' ''password'' = Inl FormatError
   \<and> dhDecrypt_ts demo_lib ''invalid-format'' ''secret'' = Inl FormatError
   \<and> decrypt_dart demo_lib ''invalid-format'' ''password''
       = Inl (Wrapped ''Decryption failed'' FormatError)
   \<and> dhDecrypt_dart demo_lib ''invalid-format'' ''secret''
       = Inl (Wrapped ''DH decryption failed'' FormatError)"
proof -
  have h: "length (str_split ''invalid-format'') \<noteq> 3"
    by simp
  from h decrypt_format_error [OF h, of demo_lib "''password''" "''secret''"]
  show ?thesis by blast
qed

section \<open>Round trip of the password cipher\<close>

text \<open>
  C1, as the code has it. With a 16-byte IV, the Dart \<^verbatim>\<open>decrypt\<close> applied to the result of
  the Dart \<^verbatim>\<open>encrypt\<close> returns the plaintext (as the JSON string value it was serialised
  to), for every plaintext, password and IV on which the platform's UTF-8 decoder inverts
  its encoder. The TypeScript \<^verbatim>\<open>encrypt\<close> does not serialise the plaintext, and the
  TypeScript \<^verbatim>\<open>decrypt\<close> parses what it decrypts: applied to the result of \<^verbatim>\<open>encrypt\<close> it
  returns \<^verbatim>\<open>JSON.parse\<close> of the plaintext, which is the value a caller serialised with
  \<^verbatim>\<open>JSON.stringify\<close> and a syntax error for a plaintext that is not JSON text.
\<close>

theorem encrypt_decrypt_roundtrip:
  assumes "length iv = 16"
  shows "(utf8_decode L (utf8_encode (json_encode_string P)) = Inr (json_encode_string P) \<longrightarrow>
            and_then (encrypt_dart L iv P W) (\<lambda>c. decrypt_dart L c W) = Inr (JString P))
       \<and> (utf8_decode L (utf8_encode P) = Inr P \<longrightarrow>
            and_then (encrypt_ts L iv P W) (\<lambda>c. decrypt_ts L c W) = json_parse P)"
proof (intro conjI impI)
  assume u: "utf8_decode L (utf8_encode (json_encode_string P)) = Inr (json_encode_string P)"
  show "and_then (encrypt_dart L iv P W) (\<lambda>c. decrypt_dart L c W) = Inr (JString P)"
    by (simp add: encrypt_dart_eq decrypt_dart_cipher_text u json_parse_encode_string
          and_then_def try_catch_def)
next
  assume u: "utf8_decode L (utf8_encode P) = Inr P"
  from assms have "iv \<noteq> []" by auto
  then show "and_then (encrypt_ts L iv P W) (\<lambda>c. decrypt_ts L c W) = json_parse P"
    by (simp add: encrypt_ts_eq decrypt_ts_cipher_text u and_then_def)
qed

theorem encrypt_decrypt_roundtrip_witness:
  "length (replicate 16 (7 :: byte)) = 16
   \<and> and_then (encrypt_dart demo_lib (replicate 16 7) ''Hello World!'' ''test-password-123'')
        (\<lambda>c. decrypt_dart demo_lib c ''test-password-123'') = Inr (JString ''Hello World!'')
   \<and> and_then (encrypt_ts demo_lib (replicate 16 7) (json_encode_string ''Hello World!'')
                  ''test-password-123'')
        (\<lambda>c. decrypt_ts demo_lib c ''test-password-123'') = Inr (JString ''Hello World!'')"
proof -
  have h: "length (replicate 16 (7 :: byte)) = 16" by simp
  from encrypt_decrypt_roundtrip [OF h, of demo_lib "''Hello World!''" "''test-password-123''"]
  have d: "and_then (encrypt_dart demo_lib (replicate 16 7) ''Hello World!'' ''test-password-123'')
        (\<lambda>c. decrypt_dart demo_lib c ''test-password-123'') = Inr (JString ''Hello World!'')"
    by simp
  from encrypt_decrypt_roundtrip [OF h, of demo_lib "json_encode_string ''Hello World!''"
      "''test-password-123''"]
  have t: "and_then (encrypt_ts demo_lib (replicate 16 7) (json_encode_string ''Hello World!'')
                  ''test-password-123'')
        (\<lambda>c. decrypt_ts demo_lib c ''test-password-123'') = Inr (JString ''Hello World!'')"
    by (simp add: json_parse_encode_string)
  from h d t show ?thesis by blast
qed

text \<open>
  C1 as stated fails on the TypeScript pair: for the plaintext \<^verbatim>\<open>Hello World!\<close> and the
  password \<^verbatim>\<open>test-password-123\<close>, \<^verbatim>\<open>decrypt(encrypt(P, W), W)\<close> throws the syntax error of
  \<^verbatim>\<open>JSON.parse\<close> instead of returning the plaintext.
\<close>

theorem roundtrip_ts_counterexample:
  "and_then (encrypt_ts demo_lib (replicate 16 7) ''Hello World!'' ''test-password-123'')
     (\<lambda>c. decrypt_ts demo_lib c ''test-password-123'') = Inl JsonSyntaxError"
  by (simp add: encrypt_ts_eq decrypt_ts_cipher_text and_then_def json_parse_hello)

section \<open>What is encrypted\<close>

text \<open>
  C6, as the code has it. With a 16-byte IV, the Dart \<^verbatim>\<open>encrypt\<close> encrypts the UTF-8 bytes
  of the plaintext serialised as a JSON string value, and that text parses back to the
  plaintext; the TypeScript \<^verbatim>\<open>encrypt\<close> encrypts the UTF-8 bytes of the plaintext as it
  is given. Both \<^verbatim>\<open>decrypt\<close> functions decode the decrypted bytes as UTF-8 and return the
  result of parsing that text as JSON.
\<close>

theorem plaintext_serialisation:
  assumes "length iv = 16"
  shows "encrypt_dart L iv P W
           = Inr (cipher_text L (deriveKey L (utf8_encode W)) iv
                    (utf8_encode (json_encode_string P)))
       \<and> json_parse (json_encode_string P) = Inr (JString P)
       \<and> encrypt_ts L iv P W
           = Inr (cipher_text L (deriveKey L (utf8_encode W)) iv (utf8_encode P))
       \<and> decrypt_dart L (cipher_text L (deriveKey L (utf8_encode W)) iv pt) W
           = try_catch ''Decryption failed'' (and_then (utf8_decode L pt) json_parse)
       \<and> decrypt_ts L (cipher_text L (deriveKey L (utf8_encode W)) iv pt) W
           = and_then (utf8_decode L pt) json_parse"
  using iv16_nonempty [OF assms]
  by (simp add: encrypt_dart_eq encrypt_ts_eq json_parse_encode_string
        decrypt_dart_cipher_text decrypt_ts_cipher_text)

theorem plaintext_serialisation_witness:
  "length (replicate 16 (7 :: byte)) = 16
   \<and> encrypt_dart demo_lib (replicate 16 7) ''Hello World!'' ''test-password-123''
       = Inr (cipher_text demo_lib (deriveKey demo_lib (utf8_encode ''test-password-123''))
                (replicate 16 7) (utf8_encode (json_encode_string ''Hello World!'')))
   \<and> json_parse (json_encode_string ''Hello World!'') = Inr (JString ''Hello World!'')
   \<and> decrypt_dart demo_lib
         (cipher_text demo_lib (deriveKey demo_lib (utf8_encode ''test-password-123''))
            (replicate 16 7) (utf8_encode (json_encode_string ''Hello World!'')))
         ''test-password-123''
       = Inr (JString ''Hello World!'')"
proof -
  have h: "length (replicate 16 (7 :: byte)) = 16" by simp
  from plaintext_serialisation [OF h, of demo_lib "''Hello World!''" "''test-password-123''"
      "utf8_encode (json_encode_string ''Hello World!'')"]
  show ?thesis
    by (simp add: try_catch_def and_then_def)
qed

text \<open>
  C6 as stated fails on the TypeScript \<^verbatim>\<open>encrypt\<close>: for the plaintext \<^verbatim>\<open>Hello World!\<close> the
  encrypted bytes are those of the plaintext itself, not of its JSON serialisation, and
  they are not the UTF-8 encoding of a JSON value.
\<close>

theorem serialisation_ts_counterexample:
  "encrypt_ts demo_lib (replicate 16 7) ''Hello World!'' ''test-password-123''
     = Inr (cipher_text demo_lib (deriveKey demo_lib (utf8_encode ''test-password-123''))
              (replicate 16 7) (utf8_encode ''Hello World!''))
   \<and> json_parse ''Hello World!'' = Inl JsonSyntaxError
   \<and> utf8_encode ''Hello World!'' \<noteq> utf8_encode (json_encode_string ''Hello World!'')"
proof -
  have "length (utf8_encode ''Hello World!'')
          \<noteq> length (utf8_encode (json_encode_string ''Hello World!''))"
    by (simp add: json_encode_string_def json_escape_char_def)
  then have "utf8_encode ''Hello World!'' \<noteq> utf8_encode (json_encode_string ''Hello World!'')"
    by metis
  then show ?thesis
    by (simp add: encrypt_ts_eq json_parse_hello)
qed

section \<open>Tampering with the authentication tag\<close>

text \<open>
  C7. Take a CipherText returned by \<^verbatim>\<open>encrypt\<close> or \<^verbatim>\<open>dhEncrypt\<close> (with a 16-byte IV) and
  flip any single bit of the 16 tag bytes that its third segment encodes. Then
  \<^verbatim>\<open>decrypt\<close> (or \<^verbatim>\<open>dhDecrypt\<close>, with the same password or shared secret) fails with the
  authentication error and returns no plaintext, in the TypeScript implementation and,
  wrapped in the exception of the function, in the Dart implementation.
\<close>

theorem tag_bit_flip_rejected:
  assumes "length iv = 16" and "i < 128"
  shows "(encrypt_ts L iv P W = Inr c \<longrightarrow>
            decrypt_ts L (flip_tag_bit i c) W = Inl AuthenticationError)
       \<and> (dhEncrypt_ts L iv P S = Inr c \<longrightarrow>
            dhDecrypt_ts L (flip_tag_bit i c) S = Inl AuthenticationError)
       \<and> (encrypt_dart L iv P W = Inr c \<longrightarrow>
            decrypt_dart L (flip_tag_bit i c) W
              = Inl (Wrapped ''Decryption failed'' AuthenticationError))
       \<and> (dhEncrypt_dart L iv P S = Inr c \<longrightarrow>
            dhDecrypt_dart L (flip_tag_bit i c) S
              = Inl (Wrapped ''DH decryption failed'' AuthenticationError))"
proof (intro conjI impI)
  have iv: "iv \<noteq> []" using assms(1) by auto
  {
    assume "encrypt_ts L iv P W = Inr c"
    with iv have "c = cipher_text L (deriveKey L (utf8_encode W)) iv (utf8_encode P)"
      by (simp add: encrypt_ts_eq)
    then show "decrypt_ts L (flip_tag_bit i c) W = Inl AuthenticationError"
      using iv assms(2) by (simp add: decrypt_ts_flipped)
  }
  {
    assume "dhEncrypt_ts L iv P S = Inr c"
    from dhEncrypt_ts_InrD [OF this iv] obtain m where
      "node_hash_update_hex L S = Inr m" "c = cipher_text L (deriveKey L m) iv (utf8_encode P)"
      by blast
    then show "dhDecrypt_ts L (flip_tag_bit i c) S = Inl AuthenticationError"
      using iv assms(2) by (simp add: dhDecrypt_ts_flipped)
  }
  {
    assume "encrypt_dart L iv P W = Inr c"
    then have "c = cipher_text L (deriveKey L (utf8_encode W)) iv
                     (utf8_encode (json_encode_string P))"
      by (simp add: encrypt_dart_eq)
    then show "decrypt_dart L (flip_tag_bit i c) W
                 = Inl (Wrapped ''Decryption failed'' AuthenticationError)"
      using assms(2) by (simp add: decrypt_dart_flipped)
  }
  {
    assume "dhEncrypt_dart L iv P S = Inr c"
    from dhEncrypt_dart_InrD [OF this] obtain m where
      "hexToBytes L S = Inr m"
      "c = cipher_text L (deriveKey L m) iv (utf8_encode (json_encode_string P))"
      by blast
    then show "dhDecrypt_dart L (flip_tag_bit i c) S
                 = Inl (Wrapped ''DH decryption failed'' AuthenticationError)"
      using assms(2) by (simp add: dhDecrypt_dart_flipped)
  }
qed

theorem tag_bit_flip_rejected_witness:
  "length (replicate 16 (7 :: byte)) = 16 \<and> (0 :: nat) < 128
   \<and> encrypt_ts demo_lib (replicate 16 7) ''Hello World!'' ''test-password-123''
       = Inr (cipher_text demo_lib (deriveKey demo_lib (utf8_encode ''test-password-123''))
                (replicate 16 7) (utf8_encode ''Hello World!''))
   \<and> decrypt_ts demo_lib
         (flip_tag_bit 0
            (cipher_text demo_lib (deriveKey demo_lib (utf8_encode ''test-password-123''))
               (replicate 16 7) (utf8_encode ''Hello World!'')))
         ''test-password-123''
       = Inl AuthenticationError
   \<and> encrypt_dart demo_lib (replicate 16 7) ''Hello World!'' ''test-password-123''
       = Inr (cipher_text demo_lib (deriveKey demo_lib (utf8_encode ''test-password-123''))
                (replicate 16 7) (utf8_encode (json_encode_string ''Hello World!'')))
   \<and> decrypt_dart demo_lib
         (flip_tag_bit 0
            (cipher_text demo_lib (deriveKey demo_lib (utf8_encode ''test-password-123''))
               (replicate 16 7) (utf8_encode (json_encode_string ''Hello World!''))))
         ''test-password-123''
       = Inl (Wrapped ''Decryption failed'' AuthenticationError)
   \<and> dhEncrypt_ts demo_lib (replicate 16 7) ''Hello World!'' ''00ff''
       = Inr (cipher_text demo_lib (deriveKey demo_lib [0, 255])
                (replicate 16 7) (utf8_encode ''Hello World!''))
   \<and> dhDecrypt_ts demo_lib
         (flip_tag_bit 0
            (cipher_text demo_lib (deriveKey demo_lib [0, 255])
               (replicate 16 7) (utf8_encode ''Hello World!'')))
         ''00ff''
       = Inl AuthenticationError
   \<and> dhEncrypt_dart demo_lib (replicate 16 7) ''Hello World!'' ''00ff''
       = Inr (cipher_text demo_lib (deriveKey demo_lib [0, 255])
                (replicate 16 7) (utf8_encode (json_encode_string ''Hello World!'')))
   \<and> dhDecrypt_dart demo_lib
         (flip_tag_bit 0
            (cipher_text demo_lib (deriveKey demo_lib [0, 255])
               (replicate 16 7) (utf8_encode (json_encode_string ''Hello World!''))))
         ''00ff''
       = Inl (Wrapped ''DH decryption failed'' AuthenticationError)"
proof -
  have h: "length (replicate 16 (7 :: byte)) = 16" and i: "(0 :: nat) < 128" by simp_all
  have ne: "replicate 16 (7 :: byte) \<noteq> []" by simp
  note e1 = encrypt_ts_eq [OF ne, of demo_lib "''Hello World!''" "''test-password-123''"]
  note e2 = encrypt_dart_eq [of demo_lib "replicate 16 7" "''Hello World!''" "''test-password-123''"]
  note e3 = dhEncrypt_ts_eq [OF ne demo_hex_00ff(1), of "''Hello World!''"]
  note e4 = dhEncrypt_dart_eq [OF demo_hex_00ff(2), of "replicate 16 7" "''Hello World!''"]
  from tag_bit_flip_rejected [OF h i, of demo_lib "''Hello World!''" "''test-password-123''"
      "cipher_text demo_lib (deriveKey demo_lib (utf8_encode ''test-password-123''))
         (replicate 16 7) (utf8_encode ''Hello World!'')" "''00ff''"] e1
  have t1: "decrypt_ts demo_lib
         (flip_tag_bit 0
            (cipher_text demo_lib (deriveKey demo_lib (utf8_encode ''test-password-123''))
               (replicate 16 7) (utf8_encode ''Hello World!'')))
         ''test-password-123'' = Inl AuthenticationError"
    by blast
  from tag_bit_flip_rejected [OF h i, of demo_lib "''Hello World!''" "''test-password-123''"
      "cipher_text demo_lib (deriveKey demo_lib (utf8_encode ''test-password-123''))
         (replicate 16 7) (utf8_encode (json_encode_string ''Hello World!''))" "''00ff''"] e2
  have t2: "decrypt_dart demo_lib
         (flip_tag_bit 0
            (cipher_text demo_lib (deriveKey demo_lib (utf8_encode ''test-password-123''))
               (replicate 16 7) (utf8_encode (json_encode_string ''Hello World!''))))
         ''test-password-123'' = Inl (Wrapped ''Decryption failed'' AuthenticationError)"
    by blast
  from tag_bit_flip_rejected [OF h i, of demo_lib "''Hello World!''" "''test-password-123''"
      "cipher_text demo_lib (deriveKey demo_lib [0, 255])
         (replicate 16 7) (utf8_encode ''Hello World!'')" "''00ff''"] e3
  have t3: "dhDecrypt_ts demo_lib
         (flip_tag_bit 0
            (cipher_text demo_lib (deriveKey demo_lib [0, 255])
               (replicate 16 7) (utf8_encode ''Hello World!'')))
         ''00ff'' = Inl AuthenticationError"
    by blast
  from tag_bit_flip_rejected [OF h i, of demo_lib "''Hello World!''" "''test-password-123''"
      "cipher_text demo_lib (deriveKey demo_lib [0, 255])
         (replicate 16 7) (utf8_encode (json_encode_string ''Hello World!''))" "''00ff''"] e4
  have t4: "dhDecrypt_dart demo_lib
         (flip_tag_bit 0
            (cipher_text demo_lib (deriveKey demo_lib [0, 255])
               (replicate 16 7) (utf8_encode (json_encode_string ''Hello World!''))))
         ''00ff'' = Inl (Wrapped ''DH decryption failed'' AuthenticationError)"
    by blast
  from h i e1 e2 e3 e4 t1 t2 t3 t4 show ?thesis by blast
qed

section \<open>The shape of a CipherText\<close>

text \<open>
  C8, as the code has it. With a 16-byte IV, the string returned by \<^verbatim>\<open>encrypt\<close> and
  \<^verbatim>\<open>dhEncrypt\<close> has exactly two colons and three segments of canonical base64; the second
  and the third segment are not empty and decode to 16 bytes each. The first segment of
  the Dart functions is never empty; the first segment of the TypeScript functions is
  empty exactly when the plaintext is the empty string.
\<close>

theorem cipher_text_segments:
  assumes "length iv = 16"
  shows "(\<exists>c. encrypt_dart L iv P W = Inr c \<and> cipher_text_shape c \<and> first_segment c \<noteq> [])
       \<and> (\<exists>c. encrypt_ts L iv P W = Inr c \<and> cipher_text_shape c
                \<and> (first_segment c = [] \<longleftrightarrow> P = []))
       \<and> (dhEncrypt_dart L iv P S = Inr c \<longrightarrow> cipher_text_shape c \<and> first_segment c \<noteq> [])
       \<and> (dhEncrypt_ts L iv P S = Inr c \<longrightarrow>
            cipher_text_shape c \<and> (first_segment c = [] \<longleftrightarrow> P = []))"
proof (intro conjI impI)
  have iv: "iv \<noteq> []" using assms by auto
  show "\<exists>c. encrypt_dart L iv P W = Inr c \<and> cipher_text_shape c \<and> first_segment c \<noteq> []"
    using assms
    by (simp add: encrypt_dart_eq cipher_text_shape_cipher_text first_segment_empty_iff
          json_encode_string_nonempty)
  show "\<exists>c. encrypt_ts L iv P W = Inr c \<and> cipher_text_shape c
             \<and> (first_segment c = [] \<longleftrightarrow> P = [])"
    using assms iv
    by (simp add: encrypt_ts_eq cipher_text_shape_cipher_text first_segment_empty_iff
          utf8_encode_def)
  {
    assume "dhEncrypt_dart L iv P S = Inr c"
    from dhEncrypt_dart_InrD [OF this] obtain m where
      c: "c = cipher_text L (deriveKey L m) iv (utf8_encode (json_encode_string P))"
      by blast
    show "cipher_text_shape c" using c assms by (simp add: cipher_text_shape_cipher_text)
    show "first_segment c \<noteq> []"
      using c by (simp add: first_segment_empty_iff json_encode_string_nonempty)
  }
  {
    assume "dhEncrypt_ts L iv P S = Inr c"
    from dhEncrypt_ts_InrD [OF this iv] obtain m where
      c: "c = cipher_text L (deriveKey L m) iv (utf8_encode P)"
      by blast
    show "cipher_text_shape c" using c assms by (simp add: cipher_text_shape_cipher_text)
    show "first_segment c = [] \<longleftrightarrow> P = []"
      using c by (simp add: first_segment_empty_iff utf8_encode_def)
  }
qed

theorem cipher_text_segments_witness:
  "length (replicate 16 (7 :: byte)) = 16
   \<and> (\<exists>c. encrypt_dart demo_lib (replicate 16 7) ''Hello World!'' ''test-password-123'' = Inr c
           \<and> cipher_text_shape c \<and> first_segment c \<noteq> [])
   \<and> (\<exists>c. encrypt_ts demo_lib (replicate 16 7) ''Hello World!'' ''test-password-123'' = Inr c
           \<and> cipher_text_shape c \<and> first_segment c \<noteq> [])
   \<and> dhEncrypt_dart demo_lib (replicate 16 7) ''Hello World!'' ''00ff''
       = Inr (cipher_text demo_lib (deriveKey demo_lib [0, 255])
                (replicate 16 7) (utf8_encode (json_encode_string ''Hello World!'')))
   \<and> cipher_text_shape
         (cipher_text demo_lib (deriveKey demo_lib [0, 255])
            (replicate 16 7) (utf8_encode (json_encode_string ''Hello World!'')))
   \<and> dhEncrypt_ts demo_lib (replicate 16 7) ''Hello World!'' ''00ff''
       = Inr (cipher_text demo_lib (deriveKey demo_lib [0, 255])
                (replicate 16 7) (utf8_encode ''Hello World!''))
   \<and> cipher_text_shape
         (cipher_text demo_lib (deriveKey demo_lib [0, 255])
            (replicate 16 7) (utf8_encode ''Hello World!''))"
proof -
  have h: "length (replicate 16 (7 :: byte)) = 16" by simp
  have ne: "replicate 16 (7 :: byte) \<noteq> []" by simp
  note e3 = dhEncrypt_ts_eq [OF ne demo_hex_00ff(1), of "''Hello World!''"]
  note e4 = dhEncrypt_dart_eq [OF demo_hex_00ff(2), of "replicate 16 7" "''Hello World!''"]
  note w1 = cipher_text_segments [OF h, of demo_lib "''Hello World!''" "''test-password-123''"
      "''00ff''"
      "cipher_text demo_lib (deriveKey demo_lib [0, 255])
         (replicate 16 7) (utf8_encode (json_encode_string ''Hello World!''))"]
  note w2 = cipher_text_segments [OF h, of demo_lib "''Hello World!''" "''test-password-123''"
      "''00ff''"
      "cipher_text demo_lib (deriveKey demo_lib [0, 255])
         (replicate 16 7) (utf8_encode ''Hello World!'')"]
  have a: "\<exists>c. encrypt_dart demo_lib (replicate 16 7) ''Hello World!'' ''test-password-123'' = Inr c
           \<and> cipher_text_shape c \<and> first_segment c \<noteq> []"
    using w1 by blast
  have b: "\<exists>c. encrypt_ts demo_lib (replicate 16 7) ''Hello World!'' ''test-password-123'' = Inr c
           \<and> cipher_text_shape c \<and> first_segment c \<noteq> []"
    using w1 by auto
  have c: "cipher_text_shape
         (cipher_text demo_lib (deriveKey demo_lib [0, 255])
            (replicate 16 7) (utf8_encode (json_encode_string ''Hello World!'')))"
    using w1 e4 by blast
  have d: "cipher_text_shape
         (cipher_text demo_lib (deriveKey demo_lib [0, 255])
            (replicate 16 7) (utf8_encode ''Hello World!''))"
    using w2 e3 by blast
  from h a b c d e3 e4 show ?thesis by blast
qed

text \<open>
  C8 as stated fails on the TypeScript \<^verbatim>\<open>encrypt\<close>: for the empty plaintext the result
  starts with a colon, so its first segment is empty.
\<close>

theorem empty_plaintext_ts_counterexample:
  "encrypt_ts demo_lib (replicate 16 7) '''' ''test-password-123''
     = Inr (cipher_text demo_lib (deriveKey demo_lib (utf8_encode ''test-password-123''))
              (replicate 16 7) [])
   \<and> first_segment
         (cipher_text demo_lib (deriveKey demo_lib (utf8_encode ''test-password-123''))
            (replicate 16 7) []) = []
   \<and> hd (cipher_text demo_lib (deriveKey demo_lib (utf8_encode ''test-password-123''))
            (replicate 16 7) []) = CHR '':''"
proof -
  have a: "encrypt_ts demo_lib (replicate 16 7) [] ''test-password-123''
     = Inr (cipher_text demo_lib (deriveKey demo_lib (utf8_encode ''test-password-123''))
              (replicate 16 7) [])"
    by (simp add: encrypt_ts_eq utf8_encode_def)
  have b: "first_segment
         (cipher_text demo_lib (deriveKey demo_lib (utf8_encode ''test-password-123''))
            (replicate 16 7) []) = []"
    by (simp add: first_segment_empty_iff)
  have c: "hd (cipher_text demo_lib (deriveKey demo_lib (utf8_encode ''test-password-123''))
            (replicate 16 7) []) = CHR '':''"
    by (simp add: cipher_text_def wire_format_def gcm_crypt_def)
  from a b c show ?thesis by simp
qed

section \<open>Key derivation\<close>

text \<open>
  C3. Every cipher operation is the authenticated encryption or decryption under the key
  \<open>deriveKey\<close> of its secret material, the UTF-8 bytes of the first 32 characters of the
  lowercase hexadecimal SHA-512 digest: of the UTF-8 bytes of the password in
  \<^verbatim>\<open>encrypt\<close> and \<^verbatim>\<open>decrypt\<close>, and of the bytes that the shared-secret string decodes to
  in \<^verbatim>\<open>dhEncrypt\<close> and \<^verbatim>\<open>dhDecrypt\<close>; on a shared secret that is an even number of
  hexadecimal digits both implementations decode the same bytes. The key has 32 bytes and
  is the hexadecimal text of the first 16 bytes of the digest, not 32 bytes of the digest.
\<close>

theorem key_derivation:
  "encrypt_ts L iv P W = aead_encrypt_ts L (deriveKey L (utf8_encode W)) iv P
   \<and> decrypt_ts L c W = aead_decrypt_ts L (deriveKey L (utf8_encode W)) c
   \<and> encrypt_dart L iv P W
       = try_catch ''Encryption failed'' (aead_encrypt_dart L (deriveKey L (utf8_encode W)) iv P)
   \<and> decrypt_dart L c W
       = try_catch ''Decryption failed'' (aead_decrypt_dart L (deriveKey L (utf8_encode W)) c)
   \<and> (node_hash_update_hex L S = Inr m \<longrightarrow>
        dhEncrypt_ts L iv P S = aead_encrypt_ts L (deriveKey L m) iv P
        \<and> dhDecrypt_ts L c S = aead_decrypt_ts L (deriveKey L m) c)
   \<and> (hexToBytes L S = Inr m \<longrightarrow>
        dhEncrypt_dart L iv P S
          = try_catch ''DH encryption failed'' (aead_encrypt_dart L (deriveKey L m) iv P)
        \<and> dhDecrypt_dart L c S
          = try_catch ''DH decryption failed'' (aead_decrypt_dart L (deriveKey L m) c))
   \<and> (is_hex S \<and> even (length S) \<longrightarrow>
        node_hash_update_hex L S = Inr (node_hex_decode S)
        \<and> hexToBytes L S = Inr (node_hex_decode S))
   \<and> length (deriveKey L m) = 32
   \<and> deriveKey L m = utf8_encode (hex_encode (take 16 (sha512_bytes L m)))"
proof (intro conjI impI)
  show "encrypt_ts L iv P W = aead_encrypt_ts L (deriveKey L (utf8_encode W)) iv P"
    by (simp add: encrypt_ts_def aead_encrypt_ts_def deriveKey_def wire_format_def Let_def)
  show "decrypt_ts L c W = aead_decrypt_ts L (deriveKey L (utf8_encode W)) c"
    by (simp add: decrypt_ts_def aead_decrypt_ts_def deriveKey_def Let_def)
  show "encrypt_dart L iv P W
       = try_catch ''Encryption failed'' (aead_encrypt_dart L (deriveKey L (utf8_encode W)) iv P)"
    by (simp add: encrypt_dart_def aead_encrypt_dart_def deriveKey_def wire_format_def Let_def
          dart_substring0_def and_then_def split: sum.splits)
  show "decrypt_dart L c W
       = try_catch ''Decryption failed'' (aead_decrypt_dart L (deriveKey L (utf8_encode W)) c)"
    by (simp add: decrypt_dart_def aead_decrypt_dart_def deriveKey_def Let_def
          dart_substring0_def and_then_def split: sum.splits)
  show "length (deriveKey L m) = 32" by simp
  show "deriveKey L m = utf8_encode (hex_encode (take 16 (sha512_bytes L m)))"
    by (rule deriveKey_first_16)
next
  assume h: "node_hash_update_hex L S = Inr m"
  show "dhEncrypt_ts L iv P S = aead_encrypt_ts L (deriveKey L m) iv P"
    using h
    by (simp add: dhEncrypt_ts_def aead_encrypt_ts_def deriveKey_def wire_format_def Let_def
          and_then_def)
  show "dhDecrypt_ts L c S = aead_decrypt_ts L (deriveKey L m) c"
    using h
    by (simp add: dhDecrypt_ts_def aead_decrypt_ts_def deriveKey_def Let_def and_then_def)
next
  assume h: "hexToBytes L S = Inr m"
  show "dhEncrypt_dart L iv P S
          = try_catch ''DH encryption failed'' (aead_encrypt_dart L (deriveKey L m) iv P)"
    using h
    by (simp add: dhEncrypt_dart_def aead_encrypt_dart_def deriveKey_def wire_format_def Let_def
          dart_substring0_def and_then_def split: sum.splits)
  show "dhDecrypt_dart L c S
          = try_catch ''DH decryption failed'' (aead_decrypt_dart L (deriveKey L m) c)"
    using h
    by (simp add: dhDecrypt_dart_def aead_decrypt_dart_def deriveKey_def Let_def
          dart_substring0_def and_then_def split: sum.splits)
next
  assume h: "is_hex S \<and> even (length S)"
  show "node_hash_update_hex L S = Inr (node_hex_decode S)"
    using h by (simp add: node_hash_update_hex_plain)
  show "hexToBytes L S = Inr (node_hex_decode S)"
    using h by (simp add: hexToBytes_plain)
qed

theorem key_derivation_witness:
  "node_hash_update_hex demo_lib ''00ff'' = Inr [0, 255]
   \<and> hexToBytes demo_lib ''00ff'' = Inr [0, 255]
   \<and> is_hex ''00ff'' \<and> even (length ''00ff'')
   \<and> node_hex_decode ''00ff'' = [0, 255]
   \<and> dhEncrypt_ts demo_lib (replicate 16 7) ''Hello World!'' ''00ff''
       = aead_encrypt_ts demo_lib (deriveKey demo_lib [0, 255]) (replicate 16 7) ''Hello World!''
   \<and> dhDecrypt_ts demo_lib ''invalid-format'' ''00ff''
       = aead_decrypt_ts demo_lib (deriveKey demo_lib [0, 255]) ''invalid-format''
   \<and> dhEncrypt_dart demo_lib (replicate 16 7) ''Hello World!'' ''00ff''
       = try_catch ''DH encryption failed''
           (aead_encrypt_dart demo_lib (deriveKey demo_lib [0, 255]) (replicate 16 7)
              ''Hello World!'')
   \<and> dhDecrypt_dart demo_lib ''invalid-format'' ''00ff''
       = try_catch ''DH decryption failed''
           (aead_decrypt_dart demo_lib (deriveKey demo_lib [0, 255]) ''invalid-format'')
   \<and> length (deriveKey demo_lib [0, 255]) = 32"
proof -
  have a: "is_hex ''00ff''" "even (length ''00ff'')" "node_hex_decode ''00ff'' = [0, 255]"
    by (simp_all add: is_hex_def hexval_def)
  from key_derivation [of demo_lib "replicate 16 7" "''Hello World!''" "''test-password-123''"
      "''invalid-format''" "''00ff''" "[0, 255]"]
    demo_hex_00ff a
  show ?thesis by simp
qed

section \<open>Agreement on the shared secret\<close>

text \<open>
  C2. For every two key pairs returned by \<^verbatim>\<open>generateDHKeyPair\<close> (with or without a
  password, whatever the random draws and the clock), \<^verbatim>\<open>computeSharedSecret\<close> of the one
  private key and the other public key returns the same secret both ways round, without
  a password and with the same password on both sides. This holds in the Dart
  implementation as it stands, and in the TypeScript implementation whenever the check of
  \<^verbatim>\<open>DiffieHellman.computeSecret\<close> accepts the two public keys.
\<close>

theorem shared_secret_agreement:
  "(generateDHKeyPair_dart L rndA nowA pwA = Some (Inr kpA)
      \<and> generateDHKeyPair_dart L rndB nowB pwB = Some (Inr kpB) \<longrightarrow>
      (\<exists>secret.
         computeSharedSecret_dart L (privateKey kpA) (publicKey kpB) pw = Inr secret
         \<and> computeSharedSecret_dart L (privateKey kpB) (publicKey kpA) pw = Inr secret))
   \<and> (tsA = generateDHKeyPair_ts L xA nowA pwA \<and> tsB = generateDHKeyPair_ts L xB nowB pwB
      \<and> dh_check_pub_key (be_int (node_hex_decode (publicKey tsA)))
      \<and> dh_check_pub_key (be_int (node_hex_decode (publicKey tsB))) \<longrightarrow>
      (\<exists>secret.
         computeSharedSecret_ts L (privateKey tsA) (publicKey tsB) pw = Inr secret
         \<and> computeSharedSecret_ts L (privateKey tsB) (publicKey tsA) pw = Inr secret))"
proof (intro conjI impI)
  assume "generateDHKeyPair_dart L rndA nowA pwA = Some (Inr kpA)
      \<and> generateDHKeyPair_dart L rndB nowB pwB = Some (Inr kpB)"
  then obtain a b where
    a: "0 \<le> a" "privateKey kpA = bigIntToHex a"
       "publicKey kpA = bigIntToHex (2 ^ nat a mod int dh_prime)" and
    b: "0 \<le> b" "privateKey kpB = bigIntToHex b"
       "publicKey kpB = bigIntToHex (2 ^ nat b mod int dh_prime)"
    using generateDHKeyPair_dart_InrD by blast
  have pa: "0 \<le> (2 :: int) ^ nat a mod int dh_prime" and pb: "0 \<le> (2 :: int) ^ nat b mod int dh_prime"
    using dh_prime_pos by simp_all
  have "computeSharedSecret_dart L (privateKey kpA) (publicKey kpB) pw
          = Inr (shared_secret_hash L
                   (minimal_bytes (nat ((2 ^ nat b mod int dh_prime) ^ nat a mod int dh_prime))) pw)"
    unfolding a b
    by (rule computeSharedSecret_dart_eq) (simp_all add: hexToBigInt_bigIntToHex a pb)
  moreover have "computeSharedSecret_dart L (privateKey kpB) (publicKey kpA) pw
          = Inr (shared_secret_hash L
                   (minimal_bytes (nat ((2 ^ nat a mod int dh_prime) ^ nat b mod int dh_prime))) pw)"
    unfolding a b
    by (rule computeSharedSecret_dart_eq) (simp_all add: hexToBigInt_bigIntToHex b pa)
  ultimately show "\<exists>secret.
         computeSharedSecret_dart L (privateKey kpA) (publicKey kpB) pw = Inr secret
         \<and> computeSharedSecret_dart L (privateKey kpB) (publicKey kpA) pw = Inr secret"
    by (simp add: dh_symmetry_int [of "nat b" "int dh_prime" "nat a"])
next
  assume h: "tsA = generateDHKeyPair_ts L xA nowA pwA \<and> tsB = generateDHKeyPair_ts L xB nowB pwB
      \<and> dh_check_pub_key (be_int (node_hex_decode (publicKey tsA)))
      \<and> dh_check_pub_key (be_int (node_hex_decode (publicKey tsB)))"
  from h generateDHKeyPair_ts_shape [of L xA nowA pwA] generateDHKeyPair_ts_shape [of L xB nowB pwB]
  obtain pa pb where
    a: "privateKey tsA = hex_encode pa"
       "publicKey tsA = hex_encode (be_bytes (2 ^ be_int pa mod dh_prime))" and
    b: "privateKey tsB = hex_encode pb"
       "publicKey tsB = hex_encode (be_bytes (2 ^ be_int pb mod dh_prime))"
    by auto
  from h have okA: "dh_check_pub_key (2 ^ be_int pa mod dh_prime)"
    and okB: "dh_check_pub_key (2 ^ be_int pb mod dh_prime)"
    by (simp_all add: a b)
  show "\<exists>secret.
         computeSharedSecret_ts L (privateKey tsA) (publicKey tsB) pw = Inr secret
         \<and> computeSharedSecret_ts L (privateKey tsB) (publicKey tsA) pw = Inr secret"
    unfolding a b
    by (simp add: computeSharedSecret_ts_eq okA okB
          dh_symmetry_nat [of "be_int pb" dh_prime "be_int pa"])
qed

theorem shared_secret_agreement_witness:
  "generateDHKeyPair_dart demo_lib (demo_random 5) 0 None
     = Some (Inr \<lparr>privateKey = ''5'', publicKey = ''20''\<rparr>)
   \<and> generateDHKeyPair_dart demo_lib (demo_random 7) 0 None
     = Some (Inr \<lparr>privateKey = ''7'', publicKey = ''80''\<rparr>)
   \<and> (\<exists>secret. computeSharedSecret_dart demo_lib ''5'' ''80'' (Some ''pw'') = Inr secret
          \<and> computeSharedSecret_dart demo_lib ''7'' ''20'' (Some ''pw'') = Inr secret)
   \<and> generateDHKeyPair_ts demo_lib 5 0 None = \<lparr>privateKey = ''05'', publicKey = ''20''\<rparr>
   \<and> generateDHKeyPair_ts demo_lib 7 0 None = \<lparr>privateKey = ''07'', publicKey = ''80''\<rparr>
   \<and> dh_check_pub_key (be_int (node_hex_decode ''20''))
   \<and> dh_check_pub_key (be_int (node_hex_decode ''80''))
   \<and> (\<exists>secret. computeSharedSecret_ts demo_lib ''05'' ''80'' (Some ''pw'') = Inr secret
          \<and> computeSharedSecret_ts demo_lib ''07'' ''20'' (Some ''pw'') = Inr secret)"
proof -
  note t = shared_secret_agreement [of demo_lib "demo_random 5" 0 None
      "\<lparr>privateKey = ''5'', publicKey = ''20''\<rparr>" "demo_random 7" 0 None
      "\<lparr>privateKey = ''7'', publicKey = ''80''\<rparr>" "Some ''pw''"
      "\<lparr>privateKey = ''05'', publicKey = ''20''\<rparr>" 5
      "\<lparr>privateKey = ''07'', publicKey = ''80''\<rparr>" 7]
  have d: "\<exists>secret. computeSharedSecret_dart demo_lib ''5'' ''80'' (Some ''pw'') = Inr secret
          \<and> computeSharedSecret_dart demo_lib ''7'' ''20'' (Some ''pw'') = Inr secret"
    using t demo_keypair_dart_5 demo_keypair_dart_7 by simp
  have n: "\<exists>secret. computeSharedSecret_ts demo_lib ''05'' ''80'' (Some ''pw'') = Inr secret
          \<and> computeSharedSecret_ts demo_lib ''07'' ''20'' (Some ''pw'') = Inr secret"
    using t demo_keypair_ts_5 demo_keypair_ts_7 demo_check_pub by simp
  from d n demo_keypair_dart_5 demo_keypair_dart_7 demo_keypair_ts_5 demo_keypair_ts_7
    demo_check_pub
  show ?thesis by blast
qed

section \<open>The check of the other public key\<close>




section \<open>The password-enhanced key pair\<close>

text \<open>
  C5. \<^verbatim>\<open>generateDHKeyPair\<close> with a password. In Dart, whenever the sampling loop returns the
  private key \<open>x\<close>, the result is the pair of
  \<open>SHA256(privateKeyBytes || SHA256(password || now)) mod (prime - 1) + 1\<close> and of the
  generator raised to it, where \<open>privateKeyBytes\<close> are the bytes of \<open>x\<close>. In TypeScript, for
  a password that is not empty, the private key is the SHA-256 digest itself, not reduced
  and not incremented, and the public key is the generator raised to the digest; the
  empty password is no password.
\<close>

theorem enhanced_key_pair:
  "(sample_private_key L (int dh_prime) rnd 0 = Some (Inr x) \<longrightarrow>
      generateDHKeyPair_dart L rnd now (Some w)
        = Some (Inr \<lparr>privateKey =
                         bigIntToHex (int (enhancedPrivateKey_spec L (minimal_bytes (nat x)) w now)),
                       publicKey =
                         bigIntToHex (2 ^ enhancedPrivateKey_spec L (minimal_bytes (nat x)) w now
                                        mod int dh_prime)\<rparr>))
   \<and> (w \<noteq> [] \<longrightarrow>
        generateDHKeyPair_ts L n now (Some w)
          = \<lparr>privateKey =
               hex_encode (sha256_bytes L
                 (be_bytes n @ sha256_bytes L (utf8_encode (w @ show_int now)))),
             publicKey =
               hex_encode (be_bytes
                 (2 ^ be_int (sha256_bytes L
                                (be_bytes n @ sha256_bytes L (utf8_encode (w @ show_int now))))
                    mod dh_prime))\<rparr>)
   \<and> generateDHKeyPair_ts L n now (Some []) = generateDHKeyPair_ts L n now None"
proof (intro conjI impI)
  assume "sample_private_key L (int dh_prime) rnd 0 = Some (Inr x)"
  then show "generateDHKeyPair_dart L rnd now (Some w)
        = Some (Inr \<lparr>privateKey =
                         bigIntToHex (int (enhancedPrivateKey_spec L (minimal_bytes (nat x)) w now)),
                       publicKey =
                         bigIntToHex (2 ^ enhancedPrivateKey_spec L (minimal_bytes (nat x)) w now
                                        mod int dh_prime)\<rparr>)"
    by (rule generateDHKeyPair_dart_enhanced)
next
  assume "w \<noteq> []"
  then have "truthy (Some w) = Some w" by (simp add: truthy_def)
  then show "generateDHKeyPair_ts L n now (Some w)
          = \<lparr>privateKey =
               hex_encode (sha256_bytes L
                 (be_bytes n @ sha256_bytes L (utf8_encode (w @ show_int now)))),
             publicKey =
               hex_encode (be_bytes
                 (2 ^ be_int (sha256_bytes L
                                (be_bytes n @ sha256_bytes L (utf8_encode (w @ show_int now))))
                    mod dh_prime))\<rparr>"
    by (rule generateDHKeyPair_ts_enhanced)
next
  show "generateDHKeyPair_ts L n now (Some []) = generateDHKeyPair_ts L n now None"
    by (simp add: generateDHKeyPair_ts_def truthy_def)
qed

theorem enhanced_key_pair_witness:
  "sample_private_key demo_lib (int dh_prime) (demo_random 5) 0 = Some (Inr 5)
   \<and> generateDHKeyPair_dart demo_lib (demo_random 5) 0 (Some ''pw'')
        = Some (Inr \<lparr>privateKey =
                         bigIntToHex (int (enhancedPrivateKey_spec demo_lib (minimal_bytes (nat 5)) ''pw'' 0)),
                       publicKey =
                         bigIntToHex (2 ^ enhancedPrivateKey_spec demo_lib (minimal_bytes (nat 5)) ''pw'' 0
                                        mod int dh_prime)\<rparr>)
   \<and> generateDHKeyPair_ts demo_lib 5 0 (Some ''pw'')
          = \<lparr>privateKey =
               hex_encode (sha256_bytes demo_lib
                 (be_bytes 5 @ sha256_bytes demo_lib (utf8_encode (''pw'' @ show_int 0)))),
             publicKey =
               hex_encode (be_bytes
                 (2 ^ be_int (sha256_bytes demo_lib
                                (be_bytes 5 @ sha256_bytes demo_lib (utf8_encode (''pw'' @ show_int 0))))
                    mod dh_prime))\<rparr>"
proof -
  have s: "sample_private_key demo_lib (int dh_prime) (demo_random 5) 0 = Some (Inr 5)"
    using demo_sample [of 5] by simp
  show ?thesis
    using enhanced_key_pair [of demo_lib "demo_random 5" 5 0 "''pw''" 5] s
    by simp
qed

text \<open>
  The private key of the TypeScript function is one less than the value of the formula
  with \<open>mod (prime - 1) + 1\<close>.
\<close>

theorem enhanced_key_ts_counterexample:
  "hex_value (privateKey (generateDHKeyPair_ts demo_lib 5 0 (Some ''pw'')))
     \<noteq> enhancedPrivateKey_spec demo_lib (be_bytes 5) ''pw'' 0
   \<and> hex_value (privateKey (generateDHKeyPair_ts demo_lib 5 0 (Some ''pw''))) + 1
     = enhancedPrivateKey_spec demo_lib (be_bytes 5) ''pw'' 0"
proof -
  have "truthy (Some ''pw'') = Some ''pw''" by (simp add: truthy_def)
  then show ?thesis
    by (simp add: generateDHKeyPair_ts_enhanced hex_value_hex_encode enhancedPrivateKey_spec_Suc)
qed

section \<open>The length check of a public key\<close>

text \<open>
  C9. \<^verbatim>\<open>validatePublicKey\<close> on text that is not hexadecimal: 202 zeros followed by
  \<^verbatim>\<open>zz\<close>. \<^verbatim>\<open>Buffer.from(s, 'hex')\<close> stops at \<^verbatim>\<open>zz\<close> without an error and keeps the 101
  bytes before it, so the TypeScript function answers \<open>True\<close>; the Dart function answers
  \<open>False\<close>, because \<^verbatim>\<open>int.parse\<close> throws on \<^verbatim>\<open>zz\<close>.
\<close>

theorem validatePublicKey_non_hex_accepted:
  "\<not> is_hex (replicate 202 CHR ''0'' @ ''zz'')
   \<and> validatePublicKey_ts (replicate 202 CHR ''0'' @ ''zz'')
   \<and> \<not> validatePublicKey_dart demo_lib (replicate 202 CHR ''0'' @ ''zz'')"
proof -
  have r: "replicate 202 CHR ''0'' = hex_encode (replicate 101 0)"
    by (simp add: hex_encode_replicate_zero)
  have z: "hexval CHR ''z'' = None" by (simp add: hexval_def)
  have a: "\<not> is_hex (replicate 202 CHR ''0'' @ ''zz'')"
    by (simp add: is_hex_def z)
  have "node_hex_decode (hex_encode (replicate 101 0) @ ''zz'') = replicate 101 0"
    by (simp add: node_hex_decode_append z)
  then have b: "validatePublicKey_ts (replicate 202 CHR ''0'' @ ''zz'')"
    by (simp add: validatePublicKey_ts_iff r)
  have "parse_pairs demo_lib (hex_pairs ''zz'') = Inl DecodeError"
    by (simp add: int_parse16_def is_hex_def z demo_lib_def)
  then have "hexToBytes demo_lib (hex_encode (replicate 101 0) @ ''zz'') = Inl DecodeError"
    by (simp add: hexToBytes_def parse_pairs_hex_encode_prefix)
  then have c: "\<not> validatePublicKey_dart demo_lib (replicate 202 CHR ''0'' @ ''zz'')"
    by (simp add: validatePublicKey_dart_def r)
  from a b c show ?thesis by simp
qed

end
